theory Spec2Isabelle
  imports Complex_Main "HOL-Library.AList" "HOL-Library.Log_Nat"
begin

section \<open>The popup view of electron-chrome-extensions\<close>

text \<open>
  A shallow embedding of the class \<open>PopupView\<close> of
  \<open>packages/electron-chrome-extensions/src/browser/popup.ts\<close> (called Variant A below)
  and of its sibling in \<open>unnamed/part_000\<close> (Variant B, which sizes the popup from a
  \<open>dom-ready\<close> handler instead of from \<open>load\<close>).

  A JavaScript number is modelled by the real it stands for; a missing property is
  \<open>None\<close>. \<open>Math.floor\<close>, \<open>Math.min\<close> and \<open>Math.max\<close> are exact on doubles. A sum
  is not: \<open>a + b\<close> is the real sum rounded to the nearest double, ties to even, as
  IEEE 754 prescribes (\<open>js_add\<close> below). The bounds of
  an Electron window are integers. Electron's windows live in a store of the host,
  addressed by handles, because the popup keeps references to windows that the host
  destroys behind its back. A method called on a destroyed window throws
  (\<open>Object has been destroyed\<close>); throwing is an outcome of its own, that keeps the
  state reached when the exception left the method.
\<close>

subsection \<open>Data\<close>

text \<open>\<open>Electron.Rectangle\<close>: integer screen coordinates.\<close>

record rectangle =
  rect_x :: int
  rect_y :: int
  rect_width :: int
  rect_height :: int

text \<open>\<open>PopupAnchorRect\<close> (popup.ts lines 6-11): plain numbers.\<close>

record popup_anchor_rect =
  anchor_x :: real
  anchor_y :: real
  anchor_width :: real
  anchor_height :: real

text \<open>
  \<open>Partial<Electron.Rectangle>\<close>, the argument of \<open>setSize\<close>, and the object a
  measurement script or a preferred-size notification delivers: every property may be
  missing. \<open>None\<close> also stands for \<open>NaN\<close>, which \<open>||\<close> treats like \<open>undefined\<close>.
\<close>

record partial_rect =
  opt_x :: "real option"
  opt_y :: "real option"
  opt_width :: "real option"
  opt_height :: "real option"

text \<open>The listeners of a window's \<open>closed\<close> event: this popup's \<open>destroy\<close>, or somebody else's.\<close>

datatype listener = ThisDestroy | Foreign nat

text \<open>What the host knows of one \<open>BrowserWindow\<close>.\<close>

record browser_window =
  bounds :: rectangle
  win_destroyed :: bool
  devToolsOpened :: bool
  visible :: bool
  closed_listeners :: "listener list"

datatype error = ObjectDestroyed | TypeErrorUndefined

datatype script = HasChildNodes | MeasureContent

text \<open>The trace of the mutating calls the popup makes on the host, oldest first.\<close>

datatype call =
    CallOff nat listener
  | CallCloseDevTools nat
  | CallDestroy nat
  | CallSetBounds nat rectangle
  | CallShow nat
  | CallLoadURL nat string
  | CallExecuteJavaScript nat script

text \<open>
  Where an asynchronous function (\<open>load\<close> of Variant A, \<open>domReady\<close> of Variant B) is
  suspended, or \<open>Finished\<close> when it is not (not started, returned or rejected). Each
  suspension carries the local \<open>win\<close> that the function captured when it started.
\<close>

datatype suspension =
    Finished
  | AwaitLoadURL "nat option"
  | AwaitHasChildNodes "nat option"
  | AwaitDelay "nat option"
  | AwaitMeasurement "nat option"

text \<open>
  The fields of \<open>PopupView\<close> (popup.ts lines 31-42), the suspension point of its
  \<open>load\<close>, and the host: the window store, \<open>BrowserWindow.getFocusedWindow()\<close> and the
  trace of calls.
\<close>

record state =
  browserWindow :: "nat option"
  parent :: "nat option"
  anchorWindow :: "nat option"
  anchorWindowBounds :: "rectangle option"
  extensionId :: string
  anchorRect :: popup_anchor_rect
  destroyed :: bool
  usingPreferredSize :: bool
  load_task :: suspension
  windows :: "(nat \<times> browser_window) list"
  focusedWindow :: "nat option"
  calls :: "call list"

datatype 'a outcome = Returned 'a | Threw error state

definition andThen :: "state outcome \<Rightarrow> (state \<Rightarrow> 'a outcome) \<Rightarrow> 'a outcome" where
  "andThen r f = (case r of Returned s \<Rightarrow> f s | Threw e s \<Rightarrow> Threw e s)"

fun state_of :: "state outcome \<Rightarrow> state" where
  "state_of (Returned s) = s"
| "state_of (Threw e s) = s"

fun threw :: "'a outcome \<Rightarrow> bool" where
  "threw (Returned s) = False"
| "threw (Threw e s) = True"

text \<open>\<open>PopupView.BOUNDS\<close> (popup.ts lines 24-29).\<close>

definition BOUNDS_minWidth :: real where "BOUNDS_minWidth = 25"
definition BOUNDS_minHeight :: real where "BOUNDS_minHeight = 25"
definition BOUNDS_maxWidth :: real where "BOUNDS_maxWidth = 800"
definition BOUNDS_maxHeight :: real where "BOUNDS_maxHeight = 600"

subsection \<open>The host: Electron's window methods\<close>

definition log_call :: "call \<Rightarrow> state \<Rightarrow> state" where
  "log_call c s = s\<lparr>calls := calls s @ [c]\<rparr>"

text \<open>\<open>win.isDestroyed()\<close> never throws. A handle the store does not know is a dead window.\<close>

definition isDestroyed_win :: "nat \<Rightarrow> state \<Rightarrow> bool" where
  "isDestroyed_win w s =
     (case map_of (windows s) w of None \<Rightarrow> True | Some bw \<Rightarrow> win_destroyed bw)"

text \<open>
  \<open>win.webContents.isDestroyed()\<close>: a \<open>BrowserWindow\<close> owns its web contents, which
  are destroyed exactly when the window is.
\<close>

definition webContents_isDestroyed :: "nat \<Rightarrow> state \<Rightarrow> bool" where
  "webContents_isDestroyed w s = isDestroyed_win w s"

definition isDevToolsOpened :: "nat \<Rightarrow> state \<Rightarrow> bool" where
  "isDevToolsOpened w s =
     (case map_of (windows s) w of None \<Rightarrow> False | Some bw \<Rightarrow> devToolsOpened bw)"

definition getBounds :: "nat \<Rightarrow> state \<Rightarrow> error + rectangle" where
  "getBounds w s =
     (case map_of (windows s) w of
        None \<Rightarrow> Inl ObjectDestroyed
      | Some bw \<Rightarrow> if win_destroyed bw then Inl ObjectDestroyed else Inr (bounds bw))"

definition update_window :: "nat \<Rightarrow> (browser_window \<Rightarrow> browser_window) \<Rightarrow> state \<Rightarrow> state" where
  "update_window w f s = s\<lparr>windows := AList.map_entry w f (windows s)\<rparr>"

text \<open>
  A mutating method: the call is recorded, then it throws on a destroyed window and
  changes the window otherwise.
\<close>

definition host_call :: "call \<Rightarrow> nat \<Rightarrow> (browser_window \<Rightarrow> browser_window) \<Rightarrow> state \<Rightarrow> state outcome" where
  "host_call c w f s =
     (if isDestroyed_win w s then Threw ObjectDestroyed (log_call c s)
      else Returned (update_window w f (log_call c s)))"

definition setBounds :: "nat \<Rightarrow> rectangle \<Rightarrow> state \<Rightarrow> state outcome" where
  "setBounds w r s = host_call (CallSetBounds w r) w (\<lambda>bw. bw\<lparr>bounds := r\<rparr>) s"

text \<open>\<open>emitter.off(name, l)\<close> removes the most recently added instance of the listener.\<close>

definition remove_listener :: "listener \<Rightarrow> listener list \<Rightarrow> listener list" where
  "remove_listener l ls = rev (remove1 l (rev ls))"

definition off_closed :: "nat \<Rightarrow> listener \<Rightarrow> state \<Rightarrow> state outcome" where
  "off_closed w l s =
     host_call (CallOff w l) w (\<lambda>bw. bw\<lparr>closed_listeners := remove_listener l (closed_listeners bw)\<rparr>) s"

definition on_closed :: "nat \<Rightarrow> listener \<Rightarrow> state \<Rightarrow> state outcome" where
  "on_closed w l s =
     (if isDestroyed_win w s then Threw ObjectDestroyed s
      else Returned (update_window w (\<lambda>bw. bw\<lparr>closed_listeners := closed_listeners bw @ [l]\<rparr>) s))"

definition closeDevTools :: "nat \<Rightarrow> state \<Rightarrow> state outcome" where
  "closeDevTools w s = host_call (CallCloseDevTools w) w (\<lambda>bw. bw\<lparr>devToolsOpened := False\<rparr>) s"

text \<open>\<open>win.show()\<close> shows the window and gives it the focus.\<close>

definition win_show :: "nat option \<Rightarrow> state \<Rightarrow> state outcome" where
  "win_show win s =
     (case win of
        None \<Rightarrow> Threw TypeErrorUndefined s
      | Some w \<Rightarrow>
          andThen (host_call (CallShow w) w (\<lambda>bw. bw\<lparr>visible := True\<rparr>) s)
            (\<lambda>s'. Returned (s'\<lparr>focusedWindow := Some w\<rparr>)))"

text \<open>
  What the host does to a window that goes away: it is destroyed, hidden, without
  devtools and without focus.
\<close>

definition host_destroy_window :: "nat \<Rightarrow> state \<Rightarrow> state" where
  "host_destroy_window w s =
     (update_window w (\<lambda>bw. bw\<lparr>win_destroyed := True, devToolsOpened := False, visible := False\<rparr>) s)
       \<lparr>focusedWindow := (if focusedWindow s = Some w then None else focusedWindow s)\<rparr>"

text \<open>
  \<open>win.destroy()\<close>. Electron then emits \<open>closed\<close> on the window; \<open>PopupView.destroy\<close>
  has removed its own listener just before, and the flag \<open>destroyed\<close> is already set, so
  the emission never reaches the popup again.
\<close>

definition win_destroy :: "nat \<Rightarrow> state \<Rightarrow> state outcome" where
  "win_destroy w s =
     (if isDestroyed_win w s then Threw ObjectDestroyed (log_call (CallDestroy w) s)
      else Returned (host_destroy_window w (log_call (CallDestroy w) s)))"

subsection \<open>The methods of PopupView\<close>

text \<open>\<open>v || 0\<close> for a number that may be missing: \<open>undefined\<close> and \<open>0\<close> are falsy.\<close>

definition or_zero :: "real option \<Rightarrow> real" where
  "or_zero v = (case v of None \<Rightarrow> 0 | Some r \<Rightarrow> if r = 0 then 0 else r)"

text \<open>\<open>setSize\<close> (popup.ts lines 166-184, part_000 lines 130-148).\<close>

definition setSize :: "partial_rect \<Rightarrow> state \<Rightarrow> state outcome" where
  "setSize rect s =
     (case browserWindow s of
        None \<Rightarrow> Returned s
      | Some bw \<Rightarrow>
          (case parent s of
             None \<Rightarrow> Returned s
           | Some p \<Rightarrow>
               (let width = \<lfloor>min BOUNDS_maxWidth (max (or_zero (opt_width rect)) BOUNDS_minWidth)\<rfloor>;
                    height = \<lfloor>min BOUNDS_maxHeight (max (or_zero (opt_height rect)) BOUNDS_minHeight)\<rfloor>
                in case getBounds bw s of
                     Inl e \<Rightarrow> Threw e s
                   | Inr b \<Rightarrow> setBounds bw (b\<lparr>rect_width := width, rect_height := height\<rparr>) s)))"

text \<open>
  The addition of two JavaScript numbers. A double is \<open>m * 2^(e - 52)\<close> with an
  integer \<open>m\<close>, \<open>\<bar>m\<bar> < 2^53\<close>, and \<open>- 1022 \<le> e \<le> 1023\<close>. \<open>double_exponent x\<close> is
  the exponent \<open>e\<close> of the binade of \<open>x\<close>, with \<open>2^e \<le> \<bar>x\<bar> < 2^(e + 1)\<close>, and
  \<open>- 1022\<close> for the subnormal numbers and zero; \<open>round_double x\<close> is the multiple
  of \<open>2^(e - 52)\<close> nearest to \<open>x\<close>, the even one of two that are equally near. A sum
  overflows to \<open>Infinity\<close> only from \<open>2^1024 - 2^970\<close> on, which a window coordinate
  added to a finite double does not reach; overflow is not modelled.
\<close>

definition double_exponent :: "real \<Rightarrow> int" where
  "double_exponent x =
     max (- 1022)
       (if 1 \<le> \<bar>x\<bar> then bitlen \<lfloor>\<bar>x\<bar>\<rfloor> - 1 else - bitlen (\<lceil>1 / \<bar>x\<bar>\<rceil> - 1))"

definition round_half_even :: "real \<Rightarrow> int" where
  "round_half_even q =
     (let f = \<lfloor>q\<rfloor>
      in if q - of_int f < 1 / 2 then f
         else if 1 / 2 < q - of_int f then f + 1
         else if even f then f else f + 1)"

definition round_double :: "real \<Rightarrow> real" where
  "round_double x =
     (let ulp = 2 powi (double_exponent x - 52)
      in of_int (round_half_even (x / ulp)) * ulp)"

definition js_add :: "real \<Rightarrow> real \<Rightarrow> real" where
  "js_add a b = round_double (a + b)"

text \<open>
  \<open>updatePosition\<close> (popup.ts lines 204-223, part_000 lines 179-198). The
  coordinates of the snapshot are integers of 32 bits, which are doubles.
\<close>

definition updatePosition :: "state \<Rightarrow> state outcome" where
  "updatePosition s =
     (case browserWindow s of
        None \<Rightarrow> Returned s
      | Some bw \<Rightarrow>
          (case anchorWindowBounds s of
             None \<Rightarrow> Returned s
           | Some ab \<Rightarrow>
               (case getBounds bw s of
                  Inl e \<Rightarrow> Threw e s
                | Inr viewBounds \<Rightarrow>
                    (let x = \<lfloor>js_add (real_of_int (rect_x ab)) (anchor_x (anchorRect s))\<rfloor>;
                         y = \<lfloor>js_add (real_of_int (rect_y ab)) (anchor_y (anchorRect s))\<rfloor>
                     in case getBounds bw s of
                          Inl e \<Rightarrow> Threw e s
                        | Inr b \<Rightarrow> setBounds bw (b\<lparr>rect_x := x, rect_y := y\<rparr>) s))))"

text \<open>
  \<open>destroy\<close> (popup.ts lines 132-160, part_000 lines 96-124), in its two blocks: the
  parent (lines 139-144) and the popup's own window (lines 146-159).
  \<open>closeDevTools\<close> makes Electron emit \<open>devtools-closed\<close>, which runs \<open>maybeClose\<close>;
  with \<open>destroyed\<close> already set that handler changes nothing, whatever it decides.
\<close>

definition destroy_parent :: "state \<Rightarrow> state outcome" where
  "destroy_parent s =
     (case parent s of
        None \<Rightarrow> Returned s
      | Some p \<Rightarrow>
          andThen (if \<not> isDestroyed_win p s then off_closed p ThisDestroy s else Returned s)
            (\<lambda>s'. Returned (s'\<lparr>parent := None\<rparr>)))"

definition destroy_browserWindow :: "state \<Rightarrow> state outcome" where
  "destroy_browserWindow s =
     (case browserWindow s of
        None \<Rightarrow> Returned s
      | Some w \<Rightarrow>
          andThen
            (if \<not> isDestroyed_win w s then
               andThen
                 (if \<not> webContents_isDestroyed w s \<and> isDevToolsOpened w s
                  then closeDevTools w s else Returned s)
                 (\<lambda>s1. andThen (off_closed w ThisDestroy s1) (win_destroy w))
             else Returned s)
            (\<lambda>s'. Returned (s'\<lparr>browserWindow := None\<rparr>)))"

definition destroy :: "state \<Rightarrow> state outcome" where
  "destroy s =
     (if destroyed s then Returned s
      else andThen (destroy_parent (s\<lparr>destroyed := True\<rparr>)) destroy_browserWindow)"

text \<open>
  \<open>maybeClose\<close> (popup.ts lines 186-202, part_000 lines 161-177). With no window,
  \<open>!this.browserWindow?.isDestroyed()\<close> is \<open>!undefined\<close>, that is true, and
  \<open>this.browserWindow?.webContents.isDevToolsOpened()\<close> is \<open>undefined\<close>, that is false.
\<close>

definition maybeClose :: "state \<Rightarrow> state outcome" where
  "maybeClose s =
     (if (case browserWindow s of None \<Rightarrow> True | Some w \<Rightarrow> \<not> isDestroyed_win w s)
         \<and> (case browserWindow s of None \<Rightarrow> False | Some w \<Rightarrow> isDevToolsOpened w s)
      then Returned s
      else if focusedWindow s = None then Returned s
      else destroy s)"

definition executeJavaScript :: "nat \<Rightarrow> script \<Rightarrow> state \<Rightarrow> state outcome" where
  "executeJavaScript w js s = host_call (CallExecuteJavaScript w js) w (\<lambda>bw. bw) s"

definition loadURL :: "nat \<Rightarrow> string \<Rightarrow> state \<Rightarrow> state outcome" where
  "loadURL w url s = host_call (CallLoadURL w url) w (\<lambda>bw. bw) s"

text \<open>
  \<open>queryPreferredSize\<close> (popup.ts lines 226-266, part_000 lines 201-228) is
  asynchronous. Its first half runs up to the \<open>await\<close> of the measurement script and
  says whether it suspended there; its second half runs when the script's result
  \<open>rect\<close> arrives. The two variants differ in the script only, which runs in the page.
\<close>

definition queryPreferredSize_start :: "state \<Rightarrow> (bool \<times> state) outcome" where
  "queryPreferredSize_start s =
     (if usingPreferredSize s \<or> destroyed s then Returned (False, s)
      else (case browserWindow s of
              None \<Rightarrow> Threw TypeErrorUndefined s
            | Some w \<Rightarrow> andThen (executeJavaScript w MeasureContent s) (\<lambda>s'. Returned (True, s'))))"

definition queryPreferredSize_resume :: "partial_rect \<Rightarrow> state \<Rightarrow> state outcome" where
  "queryPreferredSize_resume rect s =
     (if destroyed s then Returned s
      else andThen
             (setSize \<lparr>opt_x = None, opt_y = None,
                       opt_width = opt_width rect, opt_height = opt_height rect\<rparr> s)
             updatePosition)"

text \<open>\<open>updatePreferredSize\<close> (popup.ts lines 268-273, part_000 lines 230-235).\<close>

definition updatePreferredSize :: "partial_rect \<Rightarrow> state \<Rightarrow> state outcome" where
  "updatePreferredSize sz s =
     andThen (setSize sz (s\<lparr>usingPreferredSize := True\<rparr>)) updatePosition"

subsection \<open>Variant A: the asynchronous load\<close>

text \<open>
  \<open>load\<close> (popup.ts lines 94-130), cut at its \<open>await\<close>s. Each piece returns the next
  suspension point with the state. Whatever \<open>loadURL\<close> throws is caught (lines 97-101),
  and \<open>load\<close> then goes on without suspending. When \<open>queryPreferredSize\<close> returns
  before its own \<open>await\<close>, the \<open>await\<close> of \<open>load\<close> on it resumes in the same turn of
  the event loop, before any other event: \<open>load_after_delay\<close> then runs on into
  \<open>load_after_query\<close>.
\<close>

definition minimum_size :: partial_rect where
  "minimum_size = \<lparr>opt_x = None, opt_y = None,
                    opt_width = Some BOUNDS_minWidth, opt_height = Some BOUNDS_minHeight\<rparr>"

definition finishing :: "state outcome \<Rightarrow> (suspension \<times> state) outcome" where
  "finishing r = andThen r (\<lambda>s. Returned (Finished, s))"

definition load_after_query :: "nat option \<Rightarrow> state \<Rightarrow> (suspension \<times> state) outcome" where
  "load_after_query win s =
     (if destroyed s then Returned (Finished, s) else finishing (win_show win s))"

definition load_after_measurement :: "nat option \<Rightarrow> partial_rect \<Rightarrow> state \<Rightarrow> (suspension \<times> state) outcome" where
  "load_after_measurement win rect s =
     andThen (queryPreferredSize_resume rect s) (load_after_query win)"

definition load_after_delay :: "nat option \<Rightarrow> state \<Rightarrow> (suspension \<times> state) outcome" where
  "load_after_delay win s =
     (if destroyed s then Returned (Finished, s)
      else (case queryPreferredSize_start s of
              Threw e s' \<Rightarrow> Threw e s'
            | Returned (suspended, s') \<Rightarrow>
                if suspended then Returned (AwaitMeasurement win, s')
                else load_after_query win s'))"

definition load_after_hasChildNodes :: "nat option \<Rightarrow> bool \<Rightarrow> state \<Rightarrow> (suspension \<times> state) outcome" where
  "load_after_hasChildNodes win hasChildNodes s =
     (if \<not> hasChildNodes then finishing (destroy s)
      else if \<not> usingPreferredSize s then
        andThen (setSize minimum_size s) (\<lambda>s'. Returned (AwaitDelay win, s'))
      else finishing (win_show win s))"

definition load_after_loadURL :: "nat option \<Rightarrow> state \<Rightarrow> (suspension \<times> state) outcome" where
  "load_after_loadURL win s =
     (if destroyed s then Returned (Finished, s)
      else (case browserWindow s of
              None \<Rightarrow> Threw TypeErrorUndefined s
            | Some w \<Rightarrow>
                andThen (executeJavaScript w HasChildNodes s)
                  (\<lambda>s'. Returned (AwaitHasChildNodes win, s'))))"

definition load_start :: "string \<Rightarrow> state \<Rightarrow> (suspension \<times> state) outcome" where
  "load_start url s =
     (let win = browserWindow s
      in case win of
           None \<Rightarrow> load_after_loadURL win s
         | Some w \<Rightarrow>
             (case loadURL w url s of
                Threw e s' \<Rightarrow> load_after_loadURL win s'
              | Returned s' \<Rightarrow> Returned (AwaitLoadURL win, s')))"

subsection \<open>Variant B: sizing from dom-ready\<close>

text \<open>\<open>domReady\<close> (part_000 lines 150-160), cut at its \<open>await\<close>s.\<close>

definition domReady_after_query :: "nat option \<Rightarrow> state \<Rightarrow> (suspension \<times> state) outcome" where
  "domReady_after_query win s = finishing (win_show win s)"

definition domReady_after_measurement :: "nat option \<Rightarrow> partial_rect \<Rightarrow> state \<Rightarrow> (suspension \<times> state) outcome" where
  "domReady_after_measurement win rect s =
     andThen (queryPreferredSize_resume rect s) (domReady_after_query win)"

definition domReady_after_delay :: "nat option \<Rightarrow> state \<Rightarrow> (suspension \<times> state) outcome" where
  "domReady_after_delay win s =
     (case queryPreferredSize_start s of
        Threw e s' \<Rightarrow> Threw e s'
      | Returned (suspended, s') \<Rightarrow>
          if suspended then Returned (AwaitMeasurement win, s')
          else domReady_after_query win s')"

definition domReady :: "state \<Rightarrow> (suspension \<times> state) outcome" where
  "domReady s =
     (let win = browserWindow s
      in if \<not> usingPreferredSize s then
           andThen (setSize minimum_size s) (\<lambda>s'. Returned (AwaitDelay win, s'))
         else domReady_after_query win s)"

subsection \<open>The constructor\<close>

record popup_view_options =
  opts_extensionId :: string
  opts_parent :: "nat option"
  opts_anchorWindow :: "nat option"
  opts_url :: string
  opts_anchorRect :: popup_anchor_rect

text \<open>
  The snapshot of popup.ts lines 51-52 (part_000 lines 47-48):
  \<open>this.anchorWindow ? this.anchorWindow.getBounds() : this.parent ? this.parent.getBounds() : null\<close>.
\<close>

definition snapshot_bounds :: "state \<Rightarrow> error + rectangle option" where
  "snapshot_bounds s =
     (case anchorWindow s of
        Some a \<Rightarrow> (case getBounds a s of Inl e \<Rightarrow> Inl e | Inr b \<Rightarrow> Inr (Some b))
      | None \<Rightarrow>
          (case parent s of
             Some p \<Rightarrow> (case getBounds p s of Inl e \<Rightarrow> Inl e | Inr b \<Rightarrow> Inr (Some b))
           | None \<Rightarrow> Inr None))"

text \<open>\<open>new BrowserWindow({show: false, ...})\<close>: a handle the store does not use yet.\<close>

definition fresh_handle :: "(nat \<times> browser_window) list \<Rightarrow> nat" where
  "fresh_handle ws = Suc (fold max (map fst ws) 0)"

definition new_BrowserWindow :: "rectangle \<Rightarrow> state \<Rightarrow> nat \<times> state" where
  "new_BrowserWindow r s =
     (let w = fresh_handle (windows s)
      in (w, s\<lparr>windows := windows s @
                 [(w, \<lparr>bounds = r, win_destroyed = False, devToolsOpened = False,
                       visible = False, closed_listeners = []\<rparr>)]\<rparr>))"

text \<open>
  A suspension point returned by a piece of an asynchronous function is stored; a
  function that threw is over.
\<close>

fun suspend :: "(suspension \<times> state) outcome \<Rightarrow> state outcome" where
  "suspend (Returned (pc, s)) = Returned (s\<lparr>load_task := pc\<rparr>)"
| "suspend (Threw e s) = Threw e (s\<lparr>load_task := Finished\<rparr>)"

text \<open>
  The constructor of Variant A (popup.ts lines 44-92), on a host with the windows \<open>ws\<close>
  and the focused window \<open>focused\<close>; \<open>initial\<close> is the rectangle the host gives the new
  window. The handlers of \<open>preferred-size-changed\<close>, \<open>devtools-closed\<close> and \<open>blur\<close> are
  never removed: they are the dispatch of \<open>step\<close> below. \<open>this.parent.once\<close> on a
  missing parent is a \<open>TypeError\<close>. An exception of \<open>load\<close> rejects its promise and
  does not leave the constructor.
\<close>

definition constructor ::
  "popup_view_options \<Rightarrow> rectangle \<Rightarrow> (nat \<times> browser_window) list \<Rightarrow> nat option \<Rightarrow> state outcome" where
  "constructor opts initial ws focused =
     (let s0 = \<lparr>browserWindow = None, parent = opts_parent opts,
                 anchorWindow = opts_anchorWindow opts, anchorWindowBounds = None,
                 extensionId = opts_extensionId opts, anchorRect = opts_anchorRect opts,
                 destroyed = False, usingPreferredSize = False, load_task = Finished,
                 windows = ws, focusedWindow = focused, calls = []\<rparr>
      in case snapshot_bounds s0 of
           Inl e \<Rightarrow> Threw e s0
         | Inr ab \<Rightarrow>
             (case new_BrowserWindow initial (s0\<lparr>anchorWindowBounds := ab\<rparr>) of
                (w, s1) \<Rightarrow>
                  andThen (on_closed w ThisDestroy (s1\<lparr>browserWindow := Some w\<rparr>))
                    (\<lambda>s2. case parent s2 of
                            None \<Rightarrow> Threw TypeErrorUndefined s2
                          | Some p \<Rightarrow>
                              andThen (on_closed p ThisDestroy s2)
                                (\<lambda>s3. Returned (state_of (suspend (load_start (opts_url opts) s3)))))))"

subsection \<open>Events\<close>

text \<open>
  What can happen to a popup of Variant A after its construction: the events it
  subscribed to, the settling of what its \<open>load\<close> awaits, calls of its public methods,
  and changes of the host it does not hear of. Handlers run to completion, one event
  at a time. The events may come in any order, also in orders no host produces (a
  notification from a window that is gone): what holds for every event list holds for
  every execution.
\<close>

datatype event =
    PreferredSizeChanged partial_rect
  | DevtoolsClosed
  | Blur
  | PopupWindowClosed
  | ParentWindowClosed
  | LoadURLSettled
  | HasChildNodesResult bool
  | DelayElapsed
  | MeasurementResult partial_rect
  | CallerDestroy
  | CallerSetSize partial_rect
  | HostFocus "nat option"
  | HostMoveWindow nat rectangle
  | HostOpenDevTools

definition listeners_of :: "nat \<Rightarrow> state \<Rightarrow> listener list" where
  "listeners_of w s = (case map_of (windows s) w of None \<Rightarrow> [] | Some bw \<Rightarrow> closed_listeners bw)"

text \<open>
  The host closes a live window and emits \<open>closed\<close> on it; a listener added with
  \<open>once\<close> is removed before it runs.
\<close>

definition window_closed :: "bool \<Rightarrow> nat \<Rightarrow> state \<Rightarrow> state outcome" where
  "window_closed once w s =
     (if isDestroyed_win w s then Returned s
      else (let heard = (ThisDestroy \<in> set (listeners_of w s));
                s1 = host_destroy_window w s;
                s2 = (if once then update_window w
                        (\<lambda>bw. bw\<lparr>closed_listeners := remove_listener ThisDestroy (closed_listeners bw)\<rparr>) s1
                      else s1)
            in if heard then destroy s2 else Returned s2))"

fun step :: "event \<Rightarrow> state \<Rightarrow> state outcome" where
  "step (PreferredSizeChanged sz) s = updatePreferredSize sz s"
| "step DevtoolsClosed s = maybeClose s"
| "step Blur s = maybeClose s"
| "step PopupWindowClosed s =
     (case browserWindow s of None \<Rightarrow> Returned s | Some w \<Rightarrow> window_closed False w s)"
| "step ParentWindowClosed s =
     (case parent s of None \<Rightarrow> Returned s | Some p \<Rightarrow> window_closed True p s)"
| "step LoadURLSettled s =
     (case load_task s of
        AwaitLoadURL win \<Rightarrow> suspend (load_after_loadURL win s)
      | _ \<Rightarrow> Returned s)"
| "step (HasChildNodesResult b) s =
     (case load_task s of
        AwaitHasChildNodes win \<Rightarrow> suspend (load_after_hasChildNodes win b s)
      | _ \<Rightarrow> Returned s)"
| "step DelayElapsed s =
     (case load_task s of
        AwaitDelay win \<Rightarrow> suspend (load_after_delay win s)
      | _ \<Rightarrow> Returned s)"
| "step (MeasurementResult rect) s =
     (case load_task s of
        AwaitMeasurement win \<Rightarrow> suspend (load_after_measurement win rect s)
      | _ \<Rightarrow> Returned s)"
| "step CallerDestroy s = destroy s"
| "step (CallerSetSize rect) s = setSize rect s"
| "step (HostFocus f) s =
     (case f of
        None \<Rightarrow> Returned (s\<lparr>focusedWindow := None\<rparr>)
      | Some w \<Rightarrow> Returned (if isDestroyed_win w s then s else s\<lparr>focusedWindow := Some w\<rparr>))"
| "step (HostMoveWindow w r) s =
     Returned (if browserWindow s = Some w \<or> isDestroyed_win w s then s
               else update_window w (\<lambda>bw. bw\<lparr>bounds := r\<rparr>) s)"
| "step HostOpenDevTools s =
     (case browserWindow s of
        None \<Rightarrow> Returned s
      | Some w \<Rightarrow> Returned (if isDestroyed_win w s then s
                            else update_window w (\<lambda>bw. bw\<lparr>devToolsOpened := True\<rparr>) s))"

text \<open>An exception that leaves a handler does not stop the event loop.\<close>

fun run :: "event list \<Rightarrow> state \<Rightarrow> state" where
  "run [] s = s"
| "run (e # es) s = run es (state_of (step e s))"

text \<open>\<open>destroy()\<close> called \<open>n\<close> times in a row.\<close>

fun destroy_times :: "nat \<Rightarrow> state \<Rightarrow> state outcome" where
  "destroy_times 0 s = Returned s"
| "destroy_times (Suc n) s = andThen (destroy s) (destroy_times n)"

subsection \<open>Vocabulary of the properties\<close>

text \<open>The host has the window \<open>w\<close> visible.\<close>

definition shown :: "nat \<Rightarrow> state \<Rightarrow> bool" where
  "shown w s = (case map_of (windows s) w of None \<Rightarrow> False | Some bw \<Rightarrow> visible bw)"

fun is_show :: "call \<Rightarrow> bool" where
  "is_show (CallShow w) = True"
| "is_show c = False"

text \<open>The calls of \<open>win.show()\<close> made so far.\<close>

definition show_calls :: "state \<Rightarrow> call list" where
  "show_calls s = filter is_show (calls s)"

text \<open>The popup after \<open>destroy\<close>: flagged, and without its two references.\<close>

definition cleared :: "state \<Rightarrow> bool" where
  "cleared s = (destroyed s \<and> browserWindow s = None \<and> parent s = None)"

text \<open>
  \<open>same_popup s s'\<close>: from \<open>s\<close> to \<open>s'\<close> no field of the popup changed, \<open>load\<close> is
  suspended where it was, no \<open>show\<close> was called, no window became visible and no
  destroyed window came back; the host's windows, the focus and the rest of the trace
  may differ.
\<close>

definition same_popup :: "state \<Rightarrow> state \<Rightarrow> bool" where
  "same_popup s s' =
     (browserWindow s' = browserWindow s \<and> parent s' = parent s \<and>
      anchorWindow s' = anchorWindow s \<and> anchorWindowBounds s' = anchorWindowBounds s \<and>
      extensionId s' = extensionId s \<and> anchorRect s' = anchorRect s \<and>
      destroyed s' = destroyed s \<and> usingPreferredSize s' = usingPreferredSize s \<and>
      load_task s' = load_task s \<and> show_calls s' = show_calls s \<and>
      (\<forall>w. shown w s' \<longrightarrow> shown w s) \<and>
      (\<forall>w. isDestroyed_win w s \<longrightarrow> isDestroyed_win w s'))"

text \<open>
  \<open>evolves s s'\<close>: what any handler may do to the popup's fields between \<open>s\<close> and
  \<open>s'\<close>. The construction-time fields stay, the two flags are only ever set, and the
  two references are only ever cleared. A destroyed window stays destroyed. The flag
  \<open>destroyed\<close> and the two references change together only: then the popup is
  cleared and the window it held is destroyed.
\<close>

definition evolves :: "state \<Rightarrow> state \<Rightarrow> bool" where
  "evolves s s' =
     (anchorWindow s' = anchorWindow s \<and> anchorWindowBounds s' = anchorWindowBounds s \<and>
      extensionId s' = extensionId s \<and> anchorRect s' = anchorRect s \<and>
      (destroyed s \<longrightarrow> destroyed s') \<and>
      (usingPreferredSize s \<longrightarrow> usingPreferredSize s') \<and>
      (browserWindow s' = browserWindow s \<or> browserWindow s' = None) \<and>
      (parent s' = parent s \<or> parent s' = None) \<and>
      (\<forall>w. isDestroyed_win w s \<longrightarrow> isDestroyed_win w s') \<and>
      ((browserWindow s' = browserWindow s \<and> parent s' = parent s \<and>
        destroyed s' = destroyed s) \<or>
       (cleared s' \<and> (\<forall>w. browserWindow s = Some w \<longrightarrow> isDestroyed_win w s'))))"

text \<open>
  \<open>quiet s s'\<close>: \<open>load\<close> is suspended where it was, no \<open>show\<close> was called and no
  window became visible.
\<close>

definition quiet :: "state \<Rightarrow> state \<Rightarrow> bool" where
  "quiet s s' =
     (load_task s' = load_task s \<and> show_calls s' = show_calls s \<and>
      (\<forall>w. shown w s' \<longrightarrow> shown w s))"

definition calm :: "state \<Rightarrow> state \<Rightarrow> bool" where
  "calm s s' = (evolves s s' \<and> quiet s s')"

text \<open>\<open>load\<close> has not yet learnt whether the document has content.\<close>

fun early :: "suspension \<Rightarrow> bool" where
  "early (AwaitLoadURL win) = True"
| "early (AwaitHasChildNodes win) = True"
| "early pc = False"

text \<open>
  The claim's words for the applied size: the requested number (0 when missing)
  clamped to \<open>[lo, hi]\<close>, then floored.
\<close>

definition clamp_floor :: "real \<Rightarrow> real \<Rightarrow> real option \<Rightarrow> int" where
  "clamp_floor lo hi v =
     \<lfloor>if or_zero v < lo then lo else if hi < or_zero v then hi else or_zero v\<rfloor>"

text \<open>The popup's devtools are open: it has a live window, whose devtools are open.\<close>

definition devtools_open :: "state \<Rightarrow> bool" where
  "devtools_open s =
     (case browserWindow s of None \<Rightarrow> False
      | Some w \<Rightarrow> \<not> isDestroyed_win w s \<and> isDevToolsOpened w s)"

text \<open>A window of the host \<open>ws\<close> that is there and not destroyed.\<close>

definition host_alive :: "(nat \<times> browser_window) list \<Rightarrow> nat \<Rightarrow> bool" where
  "host_alive ws w = (case map_of ws w of None \<Rightarrow> False | Some bw \<Rightarrow> \<not> win_destroyed bw)"

text \<open>The bounds the host holds for a window, dead or alive.\<close>

definition bounds_of :: "nat \<Rightarrow> state \<Rightarrow> rectangle option" where
  "bounds_of w s = map_option bounds (map_of (windows s) w)"



text \<open>
  A host with one window, the parent and anchor of the popup, and the popup built on
  it by the constructor.
\<close>

definition example_parent :: browser_window where
  "example_parent =
     \<lparr>bounds = \<lparr>rect_x = 100, rect_y = 50, rect_width = 1024, rect_height = 768\<rparr>,
      win_destroyed = False, devToolsOpened = False, visible = True, closed_listeners = []\<rparr>"

definition example_options :: popup_view_options where
  "example_options =
     \<lparr>opts_extensionId = ''ext'', opts_parent = Some 1, opts_anchorWindow = Some 1,
      opts_url = ''popup.html'',
      opts_anchorRect = \<lparr>anchor_x = 10, anchor_y = 20, anchor_width = 30, anchor_height = 20\<rparr>\<rparr>"

definition example_initial :: rectangle where
  "example_initial = \<lparr>rect_x = 0, rect_y = 0, rect_width = 800, rect_height = 600\<rparr>"

definition example_state :: state where
  "example_state =
     \<lparr>browserWindow = Some 2, parent = Some 1, anchorWindow = Some 1,
      anchorWindowBounds = Some \<lparr>rect_x = 100, rect_y = 50, rect_width = 1024, rect_height = 768\<rparr>,
      extensionId = ''ext'',
      anchorRect = \<lparr>anchor_x = 10, anchor_y = 20, anchor_width = 30, anchor_height = 20\<rparr>,
      destroyed = False, usingPreferredSize = False, load_task = AwaitLoadURL (Some 2),
      windows =
        [(1, \<lparr>bounds = \<lparr>rect_x = 100, rect_y = 50, rect_width = 1024, rect_height = 768\<rparr>,
               win_destroyed = False, devToolsOpened = False, visible = True,
               closed_listeners = [ThisDestroy]\<rparr>),
         (2, \<lparr>bounds = \<lparr>rect_x = 0, rect_y = 0, rect_width = 800, rect_height = 600\<rparr>,
               win_destroyed = False, devToolsOpened = False, visible = False,
               closed_listeners = [ThisDestroy]\<rparr>)],
      focusedWindow = Some 1, calls = [CallLoadURL 2 ''popup.html'']\<rparr>"

section \<open>Properties\<close>

subsection \<open>Double arithmetic\<close>

lemma round_half_even_of_int [simp]: "round_half_even (of_int m) = m"
  by (simp add: round_half_even_def)

lemma double_exponent_binade:
  assumes "2 powi (- 1022) \<le> \<bar>x\<bar>"
  shows "2 powi (double_exponent x) \<le> \<bar>x\<bar> \<and> \<bar>x\<bar> < 2 powi (double_exponent x + 1)"
proof (cases "1 \<le> \<bar>x\<bar>")
  case True
  define m where "m = \<lfloor>\<bar>x\<bar>\<rfloor>"
  have m: "0 < m" "of_int m \<le> \<bar>x\<bar>" "\<bar>x\<bar> < of_int m + 1"
    using True by (simp_all add: m_def)
  have b: "1 \<le> bitlen m"
    using m(1) bitlen_eq_zero_iff [of m] bitlen_nonneg [of m] by linarith
  have e: "double_exponent x = bitlen m - 1"
    using True b by (simp add: double_exponent_def m_def)
  have lo: "2 ^ nat (bitlen m - 1) \<le> m" and hi: "m < 2 ^ nat (bitlen m)"
    using bitlen_bounds [OF m(1)] by simp_all
  have "(2::real) powi (bitlen m - 1) = of_int (2 ^ nat (bitlen m - 1))"
    using b by (simp add: power_int_def)
  also have "\<dots> \<le> of_int m" using lo by (simp only: of_int_le_iff)
  finally have 1: "2 powi (bitlen m - 1) \<le> \<bar>x\<bar>" using m(2) by linarith
  have "m + 1 \<le> 2 ^ nat (bitlen m)" using hi by simp
  then have "of_int (m + 1) \<le> (of_int (2 ^ nat (bitlen m)) :: real)"
    by (simp only: of_int_le_iff)
  then have "of_int m + 1 \<le> (2::real) ^ nat (bitlen m)" by simp
  moreover have "(2::real) powi (bitlen m) = 2 ^ nat (bitlen m)"
    using b by (simp add: power_int_def)
  ultimately have 2: "\<bar>x\<bar> < 2 powi (bitlen m)" using m(3) by linarith
  show ?thesis using 1 2 by (simp add: e)
next
  case False
  have pos: "0 < \<bar>x\<bar>"
  proof -
    have "(0::real) < 2 powi (- 1022)" by simp
    with assms show ?thesis by linarith
  qed
  define y where "y = 1 / \<bar>x\<bar>"
  define c where "c = \<lceil>y\<rceil>"
  have y: "1 < y" "0 < y"
    using False pos by (simp_all add: y_def)
  have c: "y \<le> of_int c" "of_int c - 1 < y" "2 \<le> c"
    using y(1) by (simp_all add: c_def) linarith+
  define k where "k = bitlen (c - 1)"
  have k1: "1 \<le> k"
    using c(3) bitlen_eq_zero_iff [of "c - 1"] bitlen_nonneg [of "c - 1"]
    by (simp add: k_def)
  have lo: "2 ^ nat (k - 1) \<le> c - 1" and hi: "c - 1 < 2 ^ nat k"
    using bitlen_bounds [of "c - 1"] c(3) by (simp_all add: k_def)
  have "y \<le> 2 ^ 1022"
  proof -
    have "y = inverse \<bar>x\<bar>" by (simp add: y_def inverse_eq_divide)
    also have "\<dots> \<le> inverse (2 powi (- 1022))"
      using assms by (intro le_imp_inverse_le) simp_all
    also have "\<dots> = 2 ^ 1022"
      by (simp only: power_int_minus inverse_inverse_eq power_int_numeral)
    finally show ?thesis .
  qed
  then have "of_int c - 1 < (2::real) ^ 1022" using c(2) by linarith
  then have "of_int (c - 1) < (of_int (2 ^ 1022) :: real)" by simp
  then have "c - 1 < 2 ^ 1022" by (simp only: of_int_less_iff)
  then have k2: "k \<le> 1022"
    using bitlen_le_iff_power [of "c - 1" 1022] by (simp add: k_def)
  have e: "double_exponent x = - k"
    using False k2 by (simp add: double_exponent_def k_def c_def y_def)
  have ypow_hi: "y \<le> 2 ^ nat k"
  proof -
    have "c \<le> 2 ^ nat k" using hi by simp
    then have "of_int c \<le> (of_int (2 ^ nat k) :: real)" by (simp only: of_int_le_iff)
    then have "of_int c \<le> (2::real) ^ nat k" by simp
    with c(1) show ?thesis by linarith
  qed
  have ypow_lo: "2 ^ nat (k - 1) < y"
  proof -
    have "(of_int (2 ^ nat (k - 1)) :: real) \<le> of_int (c - 1)"
      using lo by (simp only: of_int_le_iff)
    then have "(2::real) ^ nat (k - 1) \<le> of_int c - 1" by simp
    with c(2) show ?thesis by linarith
  qed
  have x: "\<bar>x\<bar> = inverse y" using pos by (simp add: y_def)
  have 1: "2 powi (- k) \<le> \<bar>x\<bar>"
  proof -
    have "inverse ((2::real) ^ nat k) \<le> inverse y"
      using ypow_hi y(2) by (intro le_imp_inverse_le) simp_all
    moreover have "(2::real) powi (- k) = inverse (2 ^ nat k)"
      using k1 by (simp add: power_int_def power_one_over inverse_eq_divide)
    ultimately show ?thesis by (simp add: x)
  qed
  have 2: "\<bar>x\<bar> < 2 powi (- k + 1)"
  proof -
    have "inverse y < inverse ((2::real) ^ nat (k - 1))"
      using ypow_lo by (intro less_imp_inverse_less) simp_all
    moreover have "(2::real) powi (- k + 1) = inverse (2 ^ nat (k - 1))"
    proof (cases "k = 1")
      case True
      then show ?thesis by simp
    next
      case False
      with k1 have "- k + 1 < 0" by simp
      moreover have "nat (- (- k + 1)) = nat (k - 1)" by simp
      ultimately show ?thesis by (simp add: power_int_def power_one_over inverse_eq_divide)
    qed
    ultimately show ?thesis by (simp add: x)
  qed
  show ?thesis using 1 2 by (simp add: e)
qed

lemma round_double_of_int:
  assumes "\<bar>n\<bar> < 2 ^ 53"
  shows "round_double (of_int n) = of_int n"
proof (cases "n = 0")
  case True
  then show ?thesis by (simp add: round_double_def round_half_even_def)
next
  case False
  define b where "b = bitlen \<bar>n\<bar>"
  have pos: "0 < \<bar>n\<bar>" using False by simp
  have b1: "1 \<le> b"
    using pos bitlen_eq_zero_iff [of "\<bar>n\<bar>"] bitlen_nonneg [of "\<bar>n\<bar>"] by (simp add: b_def)
  have b2: "b \<le> 53"
    using assms bitlen_le_iff_power [of "\<bar>n\<bar>" 53] by (simp add: b_def)
  have "1 \<le> \<bar>real_of_int n\<bar>" using False by (simp flip: of_int_abs)
  moreover have "\<lfloor>\<bar>real_of_int n\<bar>\<rfloor> = \<bar>n\<bar>" by (simp flip: of_int_abs)
  ultimately have e: "double_exponent (of_int n) = b - 1"
    using b1 by (simp add: double_exponent_def b_def)
  define k where "k = nat (53 - b)"
  have ulp: "(2::real) powi (b - 1 - 52) = inverse (2 ^ k)"
  proof (cases "b = 53")
    case True
    then show ?thesis by (simp add: k_def)
  next
    case False
    with b2 have "b - 1 - 52 < 0" by simp
    moreover have "nat (- (b - 1 - 52)) = k" by (simp add: k_def)
    ultimately show ?thesis by (simp add: power_int_def power_one_over inverse_eq_divide)
  qed
  have q: "real_of_int n / inverse (2 ^ k) = of_int (n * 2 ^ k)"
    by (simp add: divide_inverse)
  show ?thesis
    unfolding round_double_def e Let_def ulp q round_half_even_of_int
    by simp
qed

lemma js_add_exact:
  assumes "x + y \<in> \<int>" "\<bar>x + y\<bar> < 2 ^ 53"
  shows "js_add x y = x + y"
proof -
  from assms(1) obtain n where n: "x + y = of_int n" by (auto elim: Ints_cases)
  with assms(2) have "\<bar>real_of_int n\<bar> < 2 ^ 53" by simp
  then have "real_of_int \<bar>n\<bar> < real_of_int (2 ^ 53)" by simp
  then have "\<bar>n\<bar> < 2 ^ 53" by (simp only: of_int_less_iff)
  then show ?thesis by (simp add: js_add_def n round_double_of_int)
qed

text \<open>
  Two sums that round over an integer: \<open>100 + 0.9999999999999999\<close> is \<open>101\<close>, and
  \<open>100 + 114.99999999999999\<close>, a tie, is \<open>215\<close>; and one that does not:
  \<open>0.1 + 0.2\<close> as JavaScript prints it.
\<close>

lemma js_add_rounds_up: "js_add 100 (1 - 1 / 2 ^ 53) = 101"
  by code_simp

lemma js_add_tie_to_even: "js_add 100 (115 - 1 / 2 ^ 46) = 215"
  by code_simp

lemma js_add_below_101: "js_add 100 (9007199254740991 / 9007199254740992) = 101"
  by code_simp

lemma js_add_below_165: "js_add 50 (8092405580431359 / 70368744177664) = 165"
  by code_simp

lemma js_add_tenths: "js_add (3602879701896397 / 2 ^ 55) (3602879701896397 / 2 ^ 54)
    = 1351079888211149 / 2 ^ 52"
  by code_simp

subsection \<open>The host's store\<close>

lemma log_call_fields [simp]:
  "browserWindow (log_call c s) = browserWindow s"
  "parent (log_call c s) = parent s"
  "anchorWindow (log_call c s) = anchorWindow s"
  "anchorWindowBounds (log_call c s) = anchorWindowBounds s"
  "extensionId (log_call c s) = extensionId s"
  "anchorRect (log_call c s) = anchorRect s"
  "destroyed (log_call c s) = destroyed s"
  "usingPreferredSize (log_call c s) = usingPreferredSize s"
  "load_task (log_call c s) = load_task s"
  "windows (log_call c s) = windows s"
  "focusedWindow (log_call c s) = focusedWindow s"
  "calls (log_call c s) = calls s @ [c]"
  by (simp_all add: log_call_def)

lemma update_window_fields [simp]:
  "browserWindow (update_window w f s) = browserWindow s"
  "parent (update_window w f s) = parent s"
  "anchorWindow (update_window w f s) = anchorWindow s"
  "anchorWindowBounds (update_window w f s) = anchorWindowBounds s"
  "extensionId (update_window w f s) = extensionId s"
  "anchorRect (update_window w f s) = anchorRect s"
  "destroyed (update_window w f s) = destroyed s"
  "usingPreferredSize (update_window w f s) = usingPreferredSize s"
  "load_task (update_window w f s) = load_task s"
  "focusedWindow (update_window w f s) = focusedWindow s"
  "calls (update_window w f s) = calls s"
  by (simp_all add: update_window_def)

lemma lookup_update_window:
  "map_of (windows (update_window w f s)) w' =
     (if w' = w then map_option f (map_of (windows s) w) else map_of (windows s) w')"
  by (auto simp: update_window_def map_of_map_entry split: option.splits)

lemma isDestroyed_log_call [simp]: "isDestroyed_win w (log_call c s) = isDestroyed_win w s"
  by (simp add: isDestroyed_win_def)

lemma isDevToolsOpened_log_call [simp]: "isDevToolsOpened w (log_call c s) = isDevToolsOpened w s"
  by (simp add: isDevToolsOpened_def)

lemma getBounds_log_call [simp]: "getBounds w (log_call c s) = getBounds w s"
  by (simp add: getBounds_def)

lemma listeners_of_log_call [simp]: "listeners_of w (log_call c s) = listeners_of w s"
  by (simp add: listeners_of_def)

lemma host_reads_field_update [simp]:
  "isDestroyed_win w (s\<lparr>browserWindow := bw\<rparr>) = isDestroyed_win w s"
  "isDestroyed_win w (s\<lparr>parent := p\<rparr>) = isDestroyed_win w s"
  "isDestroyed_win w (s\<lparr>destroyed := d\<rparr>) = isDestroyed_win w s"
  "isDestroyed_win w (s\<lparr>usingPreferredSize := u\<rparr>) = isDestroyed_win w s"
  "isDestroyed_win w (s\<lparr>load_task := t\<rparr>) = isDestroyed_win w s"
  "isDestroyed_win w (s\<lparr>focusedWindow := fw\<rparr>) = isDestroyed_win w s"
  "isDevToolsOpened w (s\<lparr>browserWindow := bw\<rparr>) = isDevToolsOpened w s"
  "isDevToolsOpened w (s\<lparr>parent := p\<rparr>) = isDevToolsOpened w s"
  "isDevToolsOpened w (s\<lparr>destroyed := d\<rparr>) = isDevToolsOpened w s"
  "isDevToolsOpened w (s\<lparr>usingPreferredSize := u\<rparr>) = isDevToolsOpened w s"
  "isDevToolsOpened w (s\<lparr>load_task := t\<rparr>) = isDevToolsOpened w s"
  "isDevToolsOpened w (s\<lparr>focusedWindow := fw\<rparr>) = isDevToolsOpened w s"
  "getBounds w (s\<lparr>browserWindow := bw\<rparr>) = getBounds w s"
  "getBounds w (s\<lparr>parent := p\<rparr>) = getBounds w s"
  "getBounds w (s\<lparr>destroyed := d\<rparr>) = getBounds w s"
  "getBounds w (s\<lparr>usingPreferredSize := u\<rparr>) = getBounds w s"
  "getBounds w (s\<lparr>load_task := t\<rparr>) = getBounds w s"
  "getBounds w (s\<lparr>focusedWindow := fw\<rparr>) = getBounds w s"
  "listeners_of w (s\<lparr>browserWindow := bw\<rparr>) = listeners_of w s"
  "listeners_of w (s\<lparr>parent := p\<rparr>) = listeners_of w s"
  "listeners_of w (s\<lparr>destroyed := d\<rparr>) = listeners_of w s"
  "listeners_of w (s\<lparr>usingPreferredSize := u\<rparr>) = listeners_of w s"
  "listeners_of w (s\<lparr>load_task := t\<rparr>) = listeners_of w s"
  "listeners_of w (s\<lparr>focusedWindow := fw\<rparr>) = listeners_of w s"
  by (simp_all add: isDestroyed_win_def isDevToolsOpened_def getBounds_def listeners_of_def)

lemma isDestroyed_update_window_same [simp]:
  "(\<And>bw. win_destroyed (f bw) = win_destroyed bw) \<Longrightarrow>
     isDestroyed_win w' (update_window w f s) = isDestroyed_win w' s"
  by (auto simp: isDestroyed_win_def lookup_update_window split: option.splits)

lemma isDevToolsOpened_update_window_same [simp]:
  "(\<And>bw. devToolsOpened (f bw) = devToolsOpened bw) \<Longrightarrow>
     isDevToolsOpened w' (update_window w f s) = isDevToolsOpened w' s"
  by (auto simp: isDevToolsOpened_def lookup_update_window split: option.splits)

lemma getBounds_update_window_same [simp]:
  "(\<And>bw. win_destroyed (f bw) = win_destroyed bw \<and> bounds (f bw) = bounds bw) \<Longrightarrow>
     getBounds w' (update_window w f s) = getBounds w' s"
  by (auto simp: getBounds_def lookup_update_window split: option.splits)

lemma listeners_of_update_window_same [simp]:
  "(\<And>bw. closed_listeners (f bw) = closed_listeners bw) \<Longrightarrow>
     listeners_of w' (update_window w f s) = listeners_of w' s"
  by (auto simp: listeners_of_def lookup_update_window split: option.splits)

lemma listeners_of_update_window_other [simp]:
  "w' \<noteq> w \<Longrightarrow> listeners_of w' (update_window w f s) = listeners_of w' s"
  by (auto simp: listeners_of_def lookup_update_window split: option.splits)

lemma getBounds_live: "\<not> isDestroyed_win w s \<Longrightarrow> \<exists>b. getBounds w s = Inr b"
  by (auto simp: getBounds_def isDestroyed_win_def split: option.splits)

lemma getBounds_dead: "isDestroyed_win w s \<Longrightarrow> getBounds w s = Inl ObjectDestroyed"
  by (auto simp: getBounds_def isDestroyed_win_def split: option.splits)

lemma getBounds_setBounds:
  "\<not> isDestroyed_win w s \<Longrightarrow>
     getBounds w (update_window w (\<lambda>bw. bw\<lparr>bounds := r\<rparr>) s) = Inr r"
  by (auto simp: getBounds_def isDestroyed_win_def lookup_update_window split: option.splits)


lemma host_destroy_window_fields [simp]:
  "browserWindow (host_destroy_window w s) = browserWindow s"
  "parent (host_destroy_window w s) = parent s"
  "anchorWindow (host_destroy_window w s) = anchorWindow s"
  "anchorWindowBounds (host_destroy_window w s) = anchorWindowBounds s"
  "extensionId (host_destroy_window w s) = extensionId s"
  "anchorRect (host_destroy_window w s) = anchorRect s"
  "destroyed (host_destroy_window w s) = destroyed s"
  "usingPreferredSize (host_destroy_window w s) = usingPreferredSize s"
  "load_task (host_destroy_window w s) = load_task s"
  "calls (host_destroy_window w s) = calls s"
  by (simp_all add: host_destroy_window_def)

lemma isDestroyed_host_destroy_window [simp]:
  "isDestroyed_win w' (host_destroy_window w s) = (w' = w \<or> isDestroyed_win w' s)"
  by (auto simp: host_destroy_window_def isDestroyed_win_def update_window_def map_of_map_entry
      split: option.splits)

lemma listeners_of_host_destroy_window [simp]:
  "listeners_of w' (host_destroy_window w s) = listeners_of w' s"
  by (auto simp: host_destroy_window_def listeners_of_def update_window_def map_of_map_entry
      split: option.splits)

lemma isDevToolsOpened_host_destroy_window [simp]:
  "isDevToolsOpened w' (host_destroy_window w s) = (w' \<noteq> w \<and> isDevToolsOpened w' s)"
  by (auto simp: host_destroy_window_def isDevToolsOpened_def update_window_def map_of_map_entry
      split: option.splits)


lemma shown_log_call [simp]: "shown w (log_call c s) = shown w s"
  by (simp add: shown_def)

lemma shown_update_window_same [simp]:
  "(\<And>bw. visible (f bw) = visible bw) \<Longrightarrow> shown w' (update_window w f s) = shown w' s"
  by (auto simp: shown_def lookup_update_window split: option.splits)

lemma shown_field_update [simp]:
  "shown w (s\<lparr>usingPreferredSize := u\<rparr>) = shown w s"
  "shown w (s\<lparr>load_task := t\<rparr>) = shown w s"
  "shown w (s\<lparr>destroyed := d\<rparr>) = shown w s"
  "shown w (s\<lparr>parent := p\<rparr>) = shown w s"
  "shown w (s\<lparr>browserWindow := bw\<rparr>) = shown w s"
  by (simp_all add: shown_def)

lemma show_calls_field_update [simp]:
  "show_calls (s\<lparr>usingPreferredSize := u\<rparr>) = show_calls s"
  "show_calls (s\<lparr>load_task := t\<rparr>) = show_calls s"
  "show_calls (s\<lparr>destroyed := d\<rparr>) = show_calls s"
  "show_calls (s\<lparr>parent := p\<rparr>) = show_calls s"
  "show_calls (s\<lparr>browserWindow := bw\<rparr>) = show_calls s"
  "show_calls (s\<lparr>focusedWindow := fw\<rparr>) = show_calls s"
  by (simp_all add: show_calls_def)

lemma shown_focus_update [simp]: "shown w (s\<lparr>focusedWindow := fw\<rparr>) = shown w s"
  by (simp add: shown_def)

lemma shown_host_destroy_window [simp]:
  "shown w' (host_destroy_window w s) = (w' \<noteq> w \<and> shown w' s)"
  by (auto simp: host_destroy_window_def shown_def update_window_def map_of_map_entry
      split: option.splits)

subsection \<open>Outcomes\<close>

lemma andThen_simps [simp]:
  "andThen (Returned s) f = f s"
  "andThen (Threw e s) f = Threw e s"
  by (simp_all add: andThen_def)

lemma host_call_live:
  "\<not> isDestroyed_win w s \<Longrightarrow> host_call c w f s = Returned (update_window w f (log_call c s))"
  by (simp add: host_call_def)

lemma host_call_dead:
  "isDestroyed_win w s \<Longrightarrow> host_call c w f s = Threw ObjectDestroyed (log_call c s)"
  by (simp add: host_call_def)

lemma same_popup_refl [simp]: "same_popup s s"
  by (simp add: same_popup_def)

lemma same_popup_trans: "same_popup s s1 \<Longrightarrow> same_popup s1 s2 \<Longrightarrow> same_popup s s2"
  by (simp add: same_popup_def)

lemma same_popup_andThen:
  assumes "same_popup s (state_of r)"
    and "\<And>s1. r = Returned s1 \<Longrightarrow> same_popup s1 (state_of (f s1))"
  shows "same_popup s (state_of (andThen r f))"
proof (cases r)
  case (Returned s1)
  with assms show ?thesis by (auto intro: same_popup_trans)
next
  case (Threw e s1)
  with assms show ?thesis by simp
qed

lemma show_calls_log_call [simp]:
  "show_calls (log_call c s) = show_calls s @ (if is_show c then [c] else [])"
  by (simp add: show_calls_def)

lemma show_calls_update_window [simp]: "show_calls (update_window w f s) = show_calls s"
  by (simp add: show_calls_def)

lemma show_calls_host_destroy_window [simp]: "show_calls (host_destroy_window w s) = show_calls s"
  by (simp add: show_calls_def)

lemma same_popup_host_call:
  "\<not> is_show c \<Longrightarrow>
     (\<And>bw. visible (f bw) = visible bw \<and> win_destroyed (f bw) = win_destroyed bw) \<Longrightarrow>
     same_popup s (state_of (host_call c w f s))"
  by (simp add: host_call_def same_popup_def)

subsection \<open>setSize and updatePosition\<close>

lemma setSize_unguarded:
  "browserWindow s = None \<or> parent s = None \<Longrightarrow> setSize rect s = Returned s"
  by (auto simp: setSize_def split: option.splits)

lemma setSize_live:
  assumes "browserWindow s = Some w" "parent s = Some p" "getBounds w s = Inr b"
  shows "setSize rect s =
    setBounds w (b\<lparr>rect_width := \<lfloor>min BOUNDS_maxWidth (max (or_zero (opt_width rect)) BOUNDS_minWidth)\<rfloor>,
                   rect_height := \<lfloor>min BOUNDS_maxHeight (max (or_zero (opt_height rect)) BOUNDS_minHeight)\<rfloor>\<rparr>) s"
  using assms by (simp add: setSize_def)

lemma setSize_dead:
  assumes "browserWindow s = Some w" "parent s = Some p" "isDestroyed_win w s"
  shows "setSize rect s = Threw ObjectDestroyed s"
  using assms by (simp add: setSize_def getBounds_dead)

lemma same_popup_setBounds: "same_popup s (state_of (setBounds w r s))"
  by (simp add: setBounds_def same_popup_host_call)

lemma same_popup_setSize: "same_popup s (state_of (setSize rect s))"
  by (simp add: setSize_def same_popup_setBounds split: option.splits sum.splits)

lemma updatePosition_unguarded:
  "browserWindow s = None \<or> anchorWindowBounds s = None \<Longrightarrow> updatePosition s = Returned s"
  by (auto simp: updatePosition_def split: option.splits)

lemma updatePosition_live:
  assumes "browserWindow s = Some w" "anchorWindowBounds s = Some ab" "getBounds w s = Inr b"
  shows "updatePosition s =
    setBounds w (b\<lparr>rect_x := \<lfloor>js_add (real_of_int (rect_x ab)) (anchor_x (anchorRect s))\<rfloor>,
                   rect_y := \<lfloor>js_add (real_of_int (rect_y ab)) (anchor_y (anchorRect s))\<rfloor>\<rparr>) s"
  using assms by (simp add: updatePosition_def)

lemma same_popup_updatePosition: "same_popup s (state_of (updatePosition s))"
  by (simp add: updatePosition_def same_popup_setBounds split: option.splits sum.splits)


subsection \<open>destroy\<close>

lemma same_popup_update [simp]:
  "(\<And>bw. visible (f bw) = visible bw \<and> win_destroyed (f bw) = win_destroyed bw) \<Longrightarrow>
     same_popup s (update_window w f s') = same_popup s s'"
  "\<not> is_show c \<Longrightarrow> same_popup s (log_call c s') = same_popup s s'"
  by (auto simp: same_popup_def)

lemma destroy_parent_None: "parent s = None \<Longrightarrow> destroy_parent s = Returned s"
  by (simp add: destroy_parent_def)

lemma destroy_parent_dead:
  "parent s = Some p \<Longrightarrow> isDestroyed_win p s \<Longrightarrow> destroy_parent s = Returned (s\<lparr>parent := None\<rparr>)"
  by (simp add: destroy_parent_def)

lemma destroy_parent_live:
  "parent s = Some p \<Longrightarrow> \<not> isDestroyed_win p s \<Longrightarrow>
   destroy_parent s =
     Returned ((update_window p
                 (\<lambda>bw. bw\<lparr>closed_listeners := remove_listener ThisDestroy (closed_listeners bw)\<rparr>)
                 (log_call (CallOff p ThisDestroy) s))\<lparr>parent := None\<rparr>)"
  by (simp add: destroy_parent_def off_closed_def host_call_live)

lemma destroy_browserWindow_None: "browserWindow s = None \<Longrightarrow> destroy_browserWindow s = Returned s"
  by (simp add: destroy_browserWindow_def)

lemma destroy_browserWindow_dead:
  "browserWindow s = Some w \<Longrightarrow> isDestroyed_win w s \<Longrightarrow>
   destroy_browserWindow s = Returned (s\<lparr>browserWindow := None\<rparr>)"
  by (simp add: destroy_browserWindow_def)

lemma destroy_browserWindow_live:
  "browserWindow s = Some w \<Longrightarrow> \<not> isDestroyed_win w s \<Longrightarrow> \<not> isDevToolsOpened w s \<Longrightarrow>
   destroy_browserWindow s =
     Returned ((host_destroy_window w (log_call (CallDestroy w)
                 (update_window w
                    (\<lambda>bw. bw\<lparr>closed_listeners := remove_listener ThisDestroy (closed_listeners bw)\<rparr>)
                    (log_call (CallOff w ThisDestroy) s))))\<lparr>browserWindow := None\<rparr>)"
  by (simp add: destroy_browserWindow_def off_closed_def win_destroy_def host_call_live)

lemma destroy_browserWindow_devtools:
  "browserWindow s = Some w \<Longrightarrow> \<not> isDestroyed_win w s \<Longrightarrow> isDevToolsOpened w s \<Longrightarrow>
   destroy_browserWindow s =
     Returned ((host_destroy_window w (log_call (CallDestroy w)
                 (update_window w
                    (\<lambda>bw. bw\<lparr>closed_listeners := remove_listener ThisDestroy (closed_listeners bw)\<rparr>)
                    (log_call (CallOff w ThisDestroy)
                       (update_window w (\<lambda>bw. bw\<lparr>devToolsOpened := False\<rparr>)
                          (log_call (CallCloseDevTools w) s))))))\<lparr>browserWindow := None\<rparr>)"
  by (simp add: destroy_browserWindow_def off_closed_def win_destroy_def closeDevTools_def
      webContents_isDestroyed_def host_call_live)

lemma destroy_parent_returns:
  "\<exists>s'. destroy_parent s = Returned s' \<and> parent s' = None \<and> same_popup (s\<lparr>parent := None\<rparr>) s'"
proof (cases "parent s")
  case None
  then show ?thesis by (simp add: destroy_parent_None same_popup_def show_calls_def)
next
  case (Some p)
  then show ?thesis
    by (cases "isDestroyed_win p s")
       (simp_all add: destroy_parent_dead destroy_parent_live same_popup_def show_calls_def)
qed

lemma destroy_browserWindow_returns:
  "\<exists>s'. destroy_browserWindow s = Returned s' \<and> browserWindow s' = None
        \<and> same_popup (s\<lparr>browserWindow := None\<rparr>) s'"
proof (cases "browserWindow s")
  case None
  then show ?thesis by (simp add: destroy_browserWindow_None same_popup_def show_calls_def)
next
  case (Some w)
  then show ?thesis
    by (cases "isDestroyed_win w s"; cases "isDevToolsOpened w s")
       (simp_all add: destroy_browserWindow_dead destroy_browserWindow_live
          destroy_browserWindow_devtools same_popup_def show_calls_def)
qed

lemma destroy_again: "destroyed s \<Longrightarrow> destroy s = Returned s"
  by (simp add: destroy_def)

lemma destroy_returns:
  "\<exists>s'. destroy s = Returned s' \<and> cleared s' = (\<not> destroyed s \<or> cleared s)
        \<and> (if destroyed s then s' = s
            else same_popup (s\<lparr>destroyed := True, parent := None, browserWindow := None\<rparr>) s')"
proof (cases "destroyed s")
  case True
  then show ?thesis by (simp add: destroy_again)
next
  case False
  obtain s1 where s1: "destroy_parent (s\<lparr>destroyed := True\<rparr>) = Returned s1"
    "parent s1 = None" "same_popup (s\<lparr>destroyed := True, parent := None\<rparr>) s1"
    using destroy_parent_returns [of "s\<lparr>destroyed := True\<rparr>"] by auto
  obtain s2 where s2: "destroy_browserWindow s1 = Returned s2" "browserWindow s2 = None"
    "same_popup (s1\<lparr>browserWindow := None\<rparr>) s2"
    using destroy_browserWindow_returns [of s1] by auto
  from s1 s2 False show ?thesis
    by (simp add: destroy_def same_popup_def cleared_def show_calls_def)
qed


lemma listeners_of_drop:
  "\<not> isDestroyed_win w s \<Longrightarrow>
   listeners_of w (update_window w (\<lambda>bw. bw\<lparr>closed_listeners := remove_listener l (closed_listeners bw)\<rparr>) s)
     = remove_listener l (listeners_of w s)"
  by (auto simp: listeners_of_def isDestroyed_win_def lookup_update_window split: option.splits)

lemma destroy_times_again: "destroyed s \<Longrightarrow> destroy_times n s = Returned s"
  by (induction n) (simp_all add: destroy_again)

lemma destroy_times_eq: "0 < n \<Longrightarrow> destroy_times n s = destroy s"
proof (cases n)
  case 0
  assume "0 < n"
  with 0 show ?thesis by simp
next
  case (Suc m)
  obtain s' where s': "destroy s = Returned s'" "cleared s' = (\<not> destroyed s \<or> cleared s)"
    "if destroyed s then s' = s
     else same_popup (s\<lparr>destroyed := True, parent := None, browserWindow := None\<rparr>) s'"
    using destroy_returns [of s] by blast
  then have "destroyed s'"
    by (cases "destroyed s") (auto simp: same_popup_def)
  with Suc s' show ?thesis by (simp add: destroy_times_again)
qed

lemma destroy_live_calls:
  assumes "\<not> destroyed s" "browserWindow s = Some w" "parent s = Some p" "p \<noteq> w"
    "\<not> isDestroyed_win w s" "\<not> isDestroyed_win p s"
  shows "\<exists>s1. destroy s = Returned s1 \<and>
     calls s1 = calls s @ [CallOff p ThisDestroy]
         @ (if isDevToolsOpened w s then [CallCloseDevTools w] else [])
         @ [CallOff w ThisDestroy, CallDestroy w] \<and>
     listeners_of p s1 = remove_listener ThisDestroy (listeners_of p s) \<and>
     listeners_of w s1 = remove_listener ThisDestroy (listeners_of w s) \<and>
     isDestroyed_win w s1 \<and> \<not> isDestroyed_win p s1"
proof -
  let ?drop = "\<lambda>bw. bw\<lparr>closed_listeners := remove_listener ThisDestroy (closed_listeners bw)\<rparr>"
  let ?s1 = "(update_window p ?drop (log_call (CallOff p ThisDestroy) (s\<lparr>destroyed := True\<rparr>)))\<lparr>parent := None\<rparr>"
  have p1: "destroy_parent (s\<lparr>destroyed := True\<rparr>) = Returned ?s1"
    using assms by (simp add: destroy_parent_live)
  have bw1: "browserWindow ?s1 = Some w" and live1: "\<not> isDestroyed_win w ?s1"
    and dt1: "isDevToolsOpened w ?s1 = isDevToolsOpened w s"
    using assms by simp_all
  show ?thesis
  proof (cases "isDevToolsOpened w s")
    case True
    with dt1 have "isDevToolsOpened w ?s1" by simp
    from destroy_browserWindow_devtools [OF bw1 live1 this] p1 assms True
    show ?thesis
      by (simp add: destroy_def listeners_of_drop)
  next
    case False
    with dt1 have "\<not> isDevToolsOpened w ?s1" by simp
    from destroy_browserWindow_live [OF bw1 live1 this] p1 assms False
    show ?thesis
      by (simp add: destroy_def listeners_of_drop)
  qed
qed


lemma example_constructed:
  "constructor example_options example_initial [(1, example_parent)] (Some 1) = Returned example_state"
  by (simp add: constructor_def example_options_def example_initial_def example_parent_def
      example_state_def snapshot_bounds_def getBounds_def new_BrowserWindow_def fresh_handle_def
      on_closed_def isDestroyed_win_def update_window_def load_start_def loadURL_def
      host_call_def log_call_def Let_def numeral_2_eq_2)

lemma example_state_live [simp]:
  "\<not> isDestroyed_win 2 example_state" "\<not> isDestroyed_win (Suc 0) example_state"
  "\<not> isDevToolsOpened 2 example_state"
  "getBounds 2 example_state = Inr \<lparr>rect_x = 0, rect_y = 0, rect_width = 800, rect_height = 600\<rparr>"
  "listeners_of 2 example_state = [ThisDestroy]" "listeners_of (Suc 0) example_state = [ThisDestroy]"
  "browserWindow example_state = Some 2" "parent example_state = Some 1"
  "\<not> destroyed example_state" "\<not> usingPreferredSize example_state"
  "anchorWindowBounds example_state = Some \<lparr>rect_x = 100, rect_y = 50, rect_width = 1024, rect_height = 768\<rparr>"
  "anchorRect example_state = \<lparr>anchor_x = 10, anchor_y = 20, anchor_width = 30, anchor_height = 20\<rparr>"
  "calls example_state = [CallLoadURL 2 ''popup.html'']"
  "focusedWindow example_state = Some 1"
  "load_task example_state = AwaitLoadURL (Some 2)"
  by (simp_all add: example_state_def isDestroyed_win_def isDevToolsOpened_def getBounds_def
      listeners_of_def)

subsection \<open>Frames\<close>

lemma destroy_browserWindow_kills:
  assumes "browserWindow s = Some w" "destroy_browserWindow s = Returned s'"
  shows "isDestroyed_win w s'"
proof (cases "isDestroyed_win w s")
  case True
  with assms show ?thesis by (auto simp: destroy_browserWindow_dead)
next
  case False
  with assms show ?thesis
    by (cases "isDevToolsOpened w s")
       (auto simp: destroy_browserWindow_live destroy_browserWindow_devtools)
qed

lemma destroy_kills:
  assumes "\<not> destroyed s" "browserWindow s = Some w" "destroy s = Returned s'"
  shows "isDestroyed_win w s'"
proof -
  obtain s1 where s1: "destroy_parent (s\<lparr>destroyed := True\<rparr>) = Returned s1"
    "same_popup (s\<lparr>destroyed := True, parent := None\<rparr>) s1"
    using destroy_parent_returns [of "s\<lparr>destroyed := True\<rparr>"] by auto
  then have "browserWindow s1 = Some w"
    using assms(2) by (simp add: same_popup_def)
  moreover have "destroy_browserWindow s1 = Returned s'"
    using assms s1 by (simp add: destroy_def)
  ultimately show ?thesis by (rule destroy_browserWindow_kills)
qed

lemma cleared_updates [simp]:
  "cleared (s\<lparr>focusedWindow := fw\<rparr>) = cleared s"
  "cleared (s\<lparr>load_task := t\<rparr>) = cleared s"
  "cleared (s\<lparr>usingPreferredSize := u\<rparr>) = cleared s"
  "cleared (update_window w f s) = cleared s"
  "cleared (log_call c s) = cleared s"
  "cleared (host_destroy_window w s) = cleared s"
  by (simp_all add: cleared_def)

lemma calm_refl [simp]: "calm s s"
  by (simp add: calm_def evolves_def quiet_def)

lemma evolves_refl [simp]: "evolves s s"
  by (simp add: evolves_def)

lemma evolves_trans:
  assumes "evolves s s1" "evolves s1 s2"
  shows "evolves s s2"
proof -
  have f: "anchorWindow s2 = anchorWindow s" "anchorWindowBounds s2 = anchorWindowBounds s"
    "extensionId s2 = extensionId s" "anchorRect s2 = anchorRect s"
    using assms by (simp_all add: evolves_def)
  have m: "destroyed s \<longrightarrow> destroyed s2" "usingPreferredSize s \<longrightarrow> usingPreferredSize s2"
    using assms by (simp_all add: evolves_def)
  have d: "\<forall>w. isDestroyed_win w s \<longrightarrow> isDestroyed_win w s2"
    using assms by (simp add: evolves_def)
  have d1: "\<forall>w. isDestroyed_win w s1 \<longrightarrow> isDestroyed_win w s2"
    using assms(2) by (simp add: evolves_def)
  have l1: "(browserWindow s1 = browserWindow s \<and> parent s1 = parent s \<and> destroyed s1 = destroyed s) \<or>
       (cleared s1 \<and> (\<forall>w. browserWindow s = Some w \<longrightarrow> isDestroyed_win w s1))"
    using assms(1) by (simp add: evolves_def)
  have l2: "(browserWindow s2 = browserWindow s1 \<and> parent s2 = parent s1 \<and> destroyed s2 = destroyed s1) \<or>
       (cleared s2 \<and> (\<forall>w. browserWindow s1 = Some w \<longrightarrow> isDestroyed_win w s2))"
    using assms(2) by (simp add: evolves_def)
  have l: "(browserWindow s2 = browserWindow s \<and> parent s2 = parent s \<and> destroyed s2 = destroyed s) \<or>
       (cleared s2 \<and> (\<forall>w. browserWindow s = Some w \<longrightarrow> isDestroyed_win w s2))"
    using l1 l2 d1 by (auto simp: cleared_def)
  have r: "browserWindow s2 = browserWindow s \<or> browserWindow s2 = None"
    "parent s2 = parent s \<or> parent s2 = None"
    using l by (auto simp: cleared_def)
  show ?thesis
    unfolding evolves_def using f m d l r by blast
qed

lemma calm_trans: "calm s s1 \<Longrightarrow> calm s1 s2 \<Longrightarrow> calm s s2"
  unfolding calm_def using evolves_trans [of s s1 s2] by (auto simp: quiet_def)

lemma same_popup_calm: "same_popup s s' \<Longrightarrow> calm s s'"
  by (simp add: same_popup_def calm_def evolves_def quiet_def)

lemma calm_evolves: "calm s s' \<Longrightarrow> evolves s s'"
  by (simp add: calm_def)

lemma calm_andThen:
  assumes "calm s (state_of r)"
    and "\<And>s1. r = Returned s1 \<Longrightarrow> calm s1 (state_of (f s1))"
  shows "calm s (state_of (andThen r f))"
proof (cases r)
  case (Returned s1)
  with assms show ?thesis by (auto intro: calm_trans)
next
  case (Threw e s1)
  with assms show ?thesis by simp
qed

lemma calm_setSize: "calm s (state_of (setSize rect s))"
  by (rule same_popup_calm [OF same_popup_setSize])

lemma calm_updatePosition: "calm s (state_of (updatePosition s))"
  by (rule same_popup_calm [OF same_popup_updatePosition])

lemma calm_destroy: "calm s (state_of (destroy s))"
proof (cases "destroyed s")
  case True
  then show ?thesis by (simp add: destroy_again)
next
  case False
  obtain s' where s': "destroy s = Returned s'"
    "same_popup (s\<lparr>destroyed := True, parent := None, browserWindow := None\<rparr>) s'"
    using destroy_returns [of s] False by auto
  have k: "\<forall>w. browserWindow s = Some w \<longrightarrow> isDestroyed_win w s'"
    using False s'(1) by (auto intro: destroy_kills)
  have c: "cleared s'"
    using s'(2) by (simp add: same_popup_def cleared_def)
  show ?thesis
    using s' k c by (simp add: same_popup_def calm_def evolves_def quiet_def show_calls_def)
qed

lemma calm_maybeClose: "calm s (state_of (maybeClose s))"
  by (simp add: maybeClose_def calm_destroy)

lemma calm_latch: "calm s (s\<lparr>usingPreferredSize := True\<rparr>)"
  by (simp add: calm_def evolves_def quiet_def show_calls_def)

lemma calm_updatePreferredSize: "calm s (state_of (updatePreferredSize sz s))"
  unfolding updatePreferredSize_def
  by (rule calm_trans [OF calm_latch]) (intro calm_andThen calm_setSize calm_updatePosition)

lemma calm_queryPreferredSize_resume: "calm s (state_of (queryPreferredSize_resume rect s))"
  unfolding queryPreferredSize_resume_def
  by (auto intro!: calm_andThen calm_setSize calm_updatePosition)

lemma calm_window_closed: "calm s (state_of (window_closed once w s))"
proof -
  have 1: "calm s (host_destroy_window w s)"
    by (simp add: calm_def evolves_def quiet_def)
  have 2: "calm s (update_window w
      (\<lambda>bw. bw\<lparr>closed_listeners := remove_listener ThisDestroy (closed_listeners bw)\<rparr>)
      (host_destroy_window w s))"
    by (simp add: calm_def evolves_def quiet_def)
  show ?thesis
    unfolding window_closed_def Let_def
    by (auto intro: calm_trans [OF 1 calm_destroy] calm_trans [OF 2 calm_destroy] 1 2)
qed


subsection \<open>The pieces of load\<close>

lemma evolves_load_task [simp]: "evolves s (s'\<lparr>load_task := t\<rparr>) = evolves s s'"
  by (simp add: evolves_def)

lemma evolves_focus [simp]: "evolves s (s'\<lparr>focusedWindow := f\<rparr>) = evolves s s'"
  by (simp add: evolves_def)

lemma evolves_update [simp]:
  "(\<And>bw. win_destroyed (f bw) = win_destroyed bw) \<Longrightarrow>
     evolves s (update_window w f s') = evolves s s'"
  "evolves s (log_call c s') = evolves s s'"
  by (simp_all add: evolves_def)

lemma state_of_suspend_finishing [simp]:
  "state_of (suspend (finishing r)) = (state_of r)\<lparr>load_task := Finished\<rparr>"
  by (cases r) (simp_all add: finishing_def)

lemma evolves_host_call:
  "(\<And>bw. win_destroyed (f bw) = win_destroyed bw) \<Longrightarrow>
     evolves s (state_of (host_call c w f s))"
  by (simp add: host_call_def)

lemma evolves_win_show: "evolves s (state_of (win_show win s))"
  by (simp add: win_show_def host_call_def split: option.splits)

lemma evolves_suspend_andThen:
  assumes "evolves s (state_of r)"
    and "\<And>s1. r = Returned s1 \<Longrightarrow> evolves s1 (state_of (suspend (f s1)))"
  shows "evolves s (state_of (suspend (andThen r f)))"
proof (cases r)
  case (Returned s1)
  with assms show ?thesis by (auto intro: evolves_trans)
next
  case (Threw e s1)
  with assms show ?thesis by simp
qed

lemma evolves_load_after_query: "evolves s (state_of (suspend (load_after_query win s)))"
  by (simp add: load_after_query_def evolves_win_show)

lemma evolves_load_after_measurement:
  "evolves s (state_of (suspend (load_after_measurement win rect s)))"
  unfolding load_after_measurement_def
  by (rule evolves_suspend_andThen [OF calm_evolves [OF calm_queryPreferredSize_resume]])
     (rule evolves_load_after_query)

lemma queryPreferredSize_start_cases:
  obtains (skipped) "usingPreferredSize s \<or> destroyed s" "queryPreferredSize_start s = Returned (False, s)"
  | (no_window) "\<not> usingPreferredSize s" "\<not> destroyed s" "browserWindow s = None"
      "queryPreferredSize_start s = Threw TypeErrorUndefined s"
  | (dead) w where "\<not> usingPreferredSize s" "\<not> destroyed s" "browserWindow s = Some w"
      "isDestroyed_win w s"
      "queryPreferredSize_start s = Threw ObjectDestroyed (log_call (CallExecuteJavaScript w MeasureContent) s)"
  | (asked) w where "\<not> usingPreferredSize s" "\<not> destroyed s" "browserWindow s = Some w"
      "\<not> isDestroyed_win w s"
      "queryPreferredSize_start s =
         Returned (True, update_window w (\<lambda>bw. bw) (log_call (CallExecuteJavaScript w MeasureContent) s))"
proof (cases "usingPreferredSize s \<or> destroyed s")
  case True
  then show ?thesis using skipped by (simp add: queryPreferredSize_start_def)
next
  case False
  show ?thesis
  proof (cases "browserWindow s")
    case None
    with False show ?thesis using no_window by (simp add: queryPreferredSize_start_def)
  next
    case (Some w)
    with False show ?thesis using dead [of w] asked [of w]
      by (cases "isDestroyed_win w s")
         (simp_all add: queryPreferredSize_start_def executeJavaScript_def host_call_def)
  qed
qed

lemma evolves_load_after_delay: "evolves s (state_of (suspend (load_after_delay win s)))"
proof (cases "destroyed s")
  case True
  then show ?thesis by (simp add: load_after_delay_def)
next
  case False
  then show ?thesis
    by (cases s rule: queryPreferredSize_start_cases)
       (simp_all add: load_after_delay_def evolves_load_after_query)
qed

lemma evolves_load_after_hasChildNodes:
  "evolves s (state_of (suspend (load_after_hasChildNodes win b s)))"
proof -
  have "evolves s (state_of (suspend (andThen (setSize minimum_size s) (\<lambda>s'. Returned (AwaitDelay win, s')))))"
    by (rule evolves_suspend_andThen [OF calm_evolves [OF calm_setSize]]) simp
  then show ?thesis
    by (simp add: load_after_hasChildNodes_def calm_evolves [OF calm_destroy] evolves_win_show)
qed

lemma evolves_load_after_loadURL: "evolves s (state_of (suspend (load_after_loadURL win s)))"
proof -
  have "evolves s (state_of (suspend (andThen (executeJavaScript w HasChildNodes s)
           (\<lambda>s'. Returned (AwaitHasChildNodes win, s')))))" for w
    by (intro evolves_suspend_andThen) (simp_all add: executeJavaScript_def evolves_host_call)
  then show ?thesis
    by (simp add: load_after_loadURL_def split: option.splits)
qed

lemma evolves_step: "evolves s (state_of (step e s))"
proof (cases e)
  case (HostFocus f)
  then show ?thesis by (cases f) simp_all
next
  case HostOpenDevTools
  then show ?thesis by (simp split: option.splits)
qed (simp_all add: calm_evolves calm_updatePreferredSize calm_maybeClose calm_window_closed
      calm_destroy calm_setSize evolves_load_after_loadURL evolves_load_after_hasChildNodes
      evolves_load_after_delay evolves_load_after_measurement
      split: option.splits suspension.splits)

lemma evolves_run: "evolves s (run es s)"
proof (induction es arbitrary: s)
  case Nil
  show ?case by simp
next
  case (Cons e es)
  show ?case using evolves_trans [OF evolves_step Cons.IH] by simp
qed

lemma bounds_of_setBounds:
  "\<not> isDestroyed_win w s \<Longrightarrow>
     bounds_of w (update_window w (\<lambda>bw. bw\<lparr>bounds := r\<rparr>) s) = Some r"
  by (auto simp: bounds_of_def isDestroyed_win_def lookup_update_window split: option.splits)

lemma bounds_of_log_call [simp]: "bounds_of w (log_call c s) = bounds_of w s"
  by (simp add: bounds_of_def)

lemma getBounds_Inr: "getBounds w s = Inr b \<Longrightarrow> \<not> isDestroyed_win w s \<and> bounds_of w s = Some b"
  by (auto simp: getBounds_def isDestroyed_win_def bounds_of_def split: option.splits if_splits)

lemma setBounds_live:
  "getBounds w s = Inr b \<Longrightarrow>
   setBounds w r s = Returned (update_window w (\<lambda>bw. bw\<lparr>bounds := r\<rparr>) (log_call (CallSetBounds w r) s))"
  by (simp add: setBounds_def host_call_live getBounds_Inr)

lemma clamp_floor_eq: "lo \<le> hi \<Longrightarrow> \<lfloor>min hi (max (or_zero v) lo)\<rfloor> = clamp_floor lo hi v"
  by (simp add: clamp_floor_def min_def max_def)

lemma clamp_floor_bounds:
  "real_of_int l \<le> real_of_int h \<Longrightarrow>
     l \<le> clamp_floor (real_of_int l) (real_of_int h) v \<and> clamp_floor (real_of_int l) (real_of_int h) v \<le> h"
  by (auto simp: clamp_floor_def le_floor_iff floor_le_iff)

lemma evolves_cleared: "evolves s s' \<Longrightarrow> cleared s \<Longrightarrow> cleared s'"
  by (auto simp: evolves_def cleared_def)

lemma cleared_inert:
  assumes "cleared s"
  shows "setSize rect s = Returned s" "updatePosition s = Returned s"
    "updatePreferredSize sz s = Returned (s\<lparr>usingPreferredSize := True\<rparr>)"
  using assms
  by (simp_all add: cleared_def setSize_unguarded updatePosition_unguarded updatePreferredSize_def)

lemma evolves_load_start: "evolves s (state_of (suspend (load_start url s)))"
proof (cases "browserWindow s")
  case None
  then show ?thesis
    using evolves_load_after_loadURL [of s None] by (simp add: load_start_def)
next
  case (Some w)
  show ?thesis
  proof (cases "isDestroyed_win w s")
    case True
    have "evolves (log_call (CallLoadURL w url) s)
            (state_of (suspend (load_after_loadURL (Some w) (log_call (CallLoadURL w url) s))))"
      by (rule evolves_load_after_loadURL)
    then have "evolves s (state_of (suspend (load_after_loadURL (Some w) (log_call (CallLoadURL w url) s))))"
      by (simp add: evolves_def)
    with Some True show ?thesis
      by (simp add: load_start_def loadURL_def host_call_dead)
  next
    case False
    with Some show ?thesis
      by (simp add: load_start_def loadURL_def host_call_live)
  qed
qed

lemma awb_on_closed [simp]:
  "anchorWindowBounds (state_of (on_closed w l s)) = anchorWindowBounds s"
  by (simp add: on_closed_def)

lemma parent_on_closed [simp]: "parent (state_of (on_closed w l s)) = parent s"
  by (simp add: on_closed_def)

lemma awb_load_start [simp]:
  "anchorWindowBounds (state_of (suspend (load_start url s))) = anchorWindowBounds s"
  using evolves_load_start [of s url] by (simp add: evolves_def)

lemma awb_andThen:
  assumes "anchorWindowBounds (state_of r) = x"
    and "\<And>s1. r = Returned s1 \<Longrightarrow> anchorWindowBounds (state_of (f s1)) = anchorWindowBounds s1"
  shows "anchorWindowBounds (state_of (andThen r f)) = x"
  using assms by (cases r) simp_all

lemma constructor_after_snapshot:
  "anchorWindowBounds (state_of
     (case new_BrowserWindow initial s of
        (w, s1) \<Rightarrow>
          andThen (on_closed w ThisDestroy (s1\<lparr>browserWindow := Some w\<rparr>))
            (\<lambda>s2. case parent s2 of
                    None \<Rightarrow> Threw TypeErrorUndefined s2
                  | Some p \<Rightarrow>
                      andThen (on_closed p ThisDestroy s2)
                        (\<lambda>s3. Returned (state_of (suspend (load_start url s3)))))))
   = anchorWindowBounds s"
proof -
  have inner: "anchorWindowBounds (state_of
      (case parent s2 of
         None \<Rightarrow> Threw TypeErrorUndefined s2
       | Some p \<Rightarrow>
           andThen (on_closed p ThisDestroy s2)
             (\<lambda>s3. Returned (state_of (suspend (load_start url s3))))))
     = anchorWindowBounds s2" for s2
    by (cases "parent s2") (simp_all add: awb_andThen)
  show ?thesis
    by (simp add: new_BrowserWindow_def Let_def awb_andThen inner)
qed

lemma snapshot_bounds_alive:
  assumes "anchorWindow s = a" "parent s = p" "windows s = ws"
    and "case a of Some a' \<Rightarrow> host_alive ws a'
         | None \<Rightarrow> (case p of Some p' \<Rightarrow> host_alive ws p' | None \<Rightarrow> True)"
  shows "snapshot_bounds s =
    Inr (case a of Some a' \<Rightarrow> map_option bounds (map_of ws a')
         | None \<Rightarrow> (case p of Some p' \<Rightarrow> map_option bounds (map_of ws p') | None \<Rightarrow> None))"
  using assms
  by (auto simp: snapshot_bounds_def getBounds_def host_alive_def split: option.splits)

lemma awb_run: "anchorWindowBounds (run es s) = anchorWindowBounds s"
  using evolves_run [of s es] by (simp add: evolves_def)

lemma latch_run: "usingPreferredSize s \<Longrightarrow> usingPreferredSize (run es s)"
  using evolves_run [of s es] by (simp add: evolves_def)

lemma destroyed_run: "destroyed s \<Longrightarrow> destroyed (run es s)"
  using evolves_run [of s es] by (simp add: evolves_def)

lemma setSize_result:
  assumes "browserWindow s = Some w" "parent s = Some p" "getBounds w s = Inr b"
    and "r = b\<lparr>rect_width := clamp_floor 25 800 (opt_width rect),
                rect_height := clamp_floor 25 600 (opt_height rect)\<rparr>"
  shows "setSize rect s =
     Returned (update_window w (\<lambda>bw. bw\<lparr>bounds := r\<rparr>) (log_call (CallSetBounds w r) s))"
proof -
  have w: "\<lfloor>min BOUNDS_maxWidth (max (or_zero (opt_width rect)) BOUNDS_minWidth)\<rfloor>
             = clamp_floor 25 800 (opt_width rect)"
    using clamp_floor_eq [of 25 800] by (simp add: BOUNDS_maxWidth_def BOUNDS_minWidth_def)
  have h: "\<lfloor>min BOUNDS_maxHeight (max (or_zero (opt_height rect)) BOUNDS_minHeight)\<rfloor>
             = clamp_floor 25 600 (opt_height rect)"
    using clamp_floor_eq [of 25 600] by (simp add: BOUNDS_maxHeight_def BOUNDS_minHeight_def)
  show ?thesis
    by (simp add: setSize_live [OF assms(1-3)] w h assms(4) setBounds_live [OF assms(3)])
qed

lemma updatePosition_result:
  assumes "browserWindow s = Some w" "anchorWindowBounds s = Some ab" "getBounds w s = Inr b"
    and "r = b\<lparr>rect_x := \<lfloor>js_add (real_of_int (rect_x ab)) (anchor_x (anchorRect s))\<rfloor>,
                rect_y := \<lfloor>js_add (real_of_int (rect_y ab)) (anchor_y (anchorRect s))\<rfloor>\<rparr>"
  shows "updatePosition s =
     Returned (update_window w (\<lambda>bw. bw\<lparr>bounds := r\<rparr>) (log_call (CallSetBounds w r) s))"
  by (simp add: updatePosition_live [OF assms(1-3)] assms(4) setBounds_live [OF assms(3)])

lemma getBounds_field_update_calls [simp]:
  "getBounds w (s\<lparr>calls := c\<rparr>) = getBounds w s"
  by (simp add: getBounds_def)

lemma size_then_position:
  assumes "browserWindow s = Some w" "parent s = Some p" "anchorWindowBounds s = Some ab"
    "getBounds w s = Inr b"
  shows "\<exists>s'. andThen (setSize rect s) updatePosition = Returned s' \<and>
     same_popup s s' \<and>
     bounds_of w s' =
       Some \<lparr>rect_x = \<lfloor>js_add (real_of_int (rect_x ab)) (anchor_x (anchorRect s))\<rfloor>,
             rect_y = \<lfloor>js_add (real_of_int (rect_y ab)) (anchor_y (anchorRect s))\<rfloor>,
             rect_width = clamp_floor 25 800 (opt_width rect),
             rect_height = clamp_floor 25 600 (opt_height rect)\<rparr> \<and>
     shown w s' = shown w s"
proof -
  let ?r1 = "b\<lparr>rect_width := clamp_floor 25 800 (opt_width rect),
                rect_height := clamp_floor 25 600 (opt_height rect)\<rparr>"
  let ?s1 = "update_window w (\<lambda>bw. bw\<lparr>bounds := ?r1\<rparr>) (log_call (CallSetBounds w ?r1) s)"
  have live: "\<not> isDestroyed_win w s"
    using assms(4) by (simp add: getBounds_Inr)
  have 1: "setSize rect s = Returned ?s1"
    using setSize_result [OF assms(1,2,4) refl] .
  have g1: "getBounds w ?s1 = Inr ?r1"
    using live by (simp add: getBounds_setBounds)
  have f1: "browserWindow ?s1 = Some w" "anchorWindowBounds ?s1 = Some ab"
    using assms by simp_all
  let ?r2 = "?r1\<lparr>rect_x := \<lfloor>js_add (real_of_int (rect_x ab)) (anchor_x (anchorRect ?s1))\<rfloor>,
                  rect_y := \<lfloor>js_add (real_of_int (rect_y ab)) (anchor_y (anchorRect ?s1))\<rfloor>\<rparr>"
  have 2: "updatePosition ?s1 =
     Returned (update_window w (\<lambda>bw. bw\<lparr>bounds := ?r2\<rparr>) (log_call (CallSetBounds w ?r2) ?s1))"
    using updatePosition_result [OF f1 g1 refl] .
  have live1: "\<not> isDestroyed_win w ?s1"
    using live by simp
  show ?thesis
    using live1 by (simp add: 1 2 bounds_of_setBounds same_popup_def)
qed

subsection \<open>What is shown, and when\<close>

lemma quiet_refl [simp]: "quiet s s"
  by (simp add: quiet_def)

lemma quiet_trans: "quiet s s1 \<Longrightarrow> quiet s1 s2 \<Longrightarrow> quiet s s2"
  by (auto simp: quiet_def)

lemma calm_quiet: "calm s s' \<Longrightarrow> quiet s s'"
  by (simp add: calm_def)

lemma fold_max_ge: "a \<le> fold max xs (a::nat)"
proof (induction xs arbitrary: a)
  case Nil
  show ?case by simp
next
  case (Cons x xs)
  have "a \<le> max x a" by simp
  also have "max x a \<le> fold max xs (max x a)" by (rule Cons.IH)
  finally show ?case by simp
qed

lemma fold_max_member: "x \<in> set xs \<Longrightarrow> x \<le> fold max xs (a::nat)"
proof (induction xs arbitrary: a)
  case Nil
  then show ?case by simp
next
  case (Cons y xs)
  show ?case
  proof (cases "x = y")
    case True
    have "x \<le> max y a" using True by simp
    also have "max y a \<le> fold max xs (max y a)" by (rule fold_max_ge)
    finally show ?thesis by simp
  next
    case False
    with Cons.prems have "x \<in> set xs" by simp
    then show ?thesis using Cons.IH by simp
  qed
qed

lemma fresh_handle_fresh: "map_of ws (fresh_handle ws) = None"
proof -
  have "fresh_handle ws \<notin> fst ` set ws"
  proof
    assume "fresh_handle ws \<in> fst ` set ws"
    then have "fresh_handle ws \<in> set (map fst ws)" by simp
    then have "fresh_handle ws \<le> fold max (map fst ws) 0" by (rule fold_max_member)
    then show False by (simp add: fresh_handle_def)
  qed
  then show ?thesis by (simp add: map_of_eq_None_iff)
qed

lemma load_after_loadURL_unshown:
  "show_calls (state_of (suspend (load_after_loadURL win s))) = show_calls s \<and>
   (\<forall>w. shown w (state_of (suspend (load_after_loadURL win s))) = shown w s) \<and>
   browserWindow (state_of (suspend (load_after_loadURL win s))) = browserWindow s \<and>
   early (load_task (state_of (suspend (load_after_loadURL win s)))) =
     (load_task (state_of (suspend (load_after_loadURL win s))) = AwaitHasChildNodes win) \<and>
   destroyed (state_of (suspend (load_after_loadURL win s))) = destroyed s"
proof (cases "destroyed s")
  case True
  then show ?thesis by (simp add: load_after_loadURL_def)
next
  case False
  show ?thesis
  proof (cases "browserWindow s")
    case None
    with False show ?thesis by (simp add: load_after_loadURL_def)
  next
    case (Some w)
    with False show ?thesis
      by (cases "isDestroyed_win w s")
         (simp_all add: load_after_loadURL_def executeJavaScript_def host_call_def)
  qed
qed

lemma load_start_unshown:
  "show_calls (state_of (suspend (load_start url s))) = show_calls s \<and>
   (\<forall>w. shown w (state_of (suspend (load_start url s))) = shown w s) \<and>
   browserWindow (state_of (suspend (load_start url s))) = browserWindow s \<and>
   destroyed (state_of (suspend (load_start url s))) = destroyed s"
proof (cases "browserWindow s")
  case None
  then show ?thesis
    using load_after_loadURL_unshown [of None s] by (simp add: load_start_def)
next
  case (Some w)
  show ?thesis
  proof (cases "isDestroyed_win w s")
    case True
    with Some show ?thesis
      using load_after_loadURL_unshown [of "Some w" "log_call (CallLoadURL w url) s"]
      by (simp add: load_start_def loadURL_def host_call_dead)
  next
    case False
    with Some show ?thesis
      by (simp add: load_start_def loadURL_def host_call_live)
  qed
qed

lemma not_early_after_hasChildNodes:
  "\<not> early (load_task (state_of (suspend (load_after_hasChildNodes win b s))))"
proof -
  have "\<not> early (load_task (state_of (suspend
          (andThen (setSize minimum_size s) (\<lambda>s'. Returned (AwaitDelay win, s'))))))"
    by (cases "setSize minimum_size s") simp_all
  then show ?thesis by (simp add: load_after_hasChildNodes_def)
qed

lemma not_early_after_query:
  "\<not> early (load_task (state_of (suspend (load_after_query win s))))"
  by (simp add: load_after_query_def)

lemma not_early_after_delay:
  "\<not> early (load_task (state_of (suspend (load_after_delay win s))))"
proof (cases "destroyed s")
  case True
  then show ?thesis by (simp add: load_after_delay_def)
next
  case False
  then show ?thesis
    by (cases s rule: queryPreferredSize_start_cases)
       (simp_all add: load_after_delay_def not_early_after_query)
qed

lemma not_early_after_measurement:
  "\<not> early (load_task (state_of (suspend (load_after_measurement win rect s))))"
  by (cases "queryPreferredSize_resume rect s")
     (simp_all add: load_after_measurement_def not_early_after_query)

lemma quiet_step_finished:
  assumes "load_task s = Finished"
  shows "quiet s (state_of (step e s))"
proof (cases e)
  case (HostFocus f)
  then show ?thesis by (cases f) (simp_all add: quiet_def)
next
  case (HostMoveWindow w r)
  then show ?thesis by (simp add: quiet_def)
next
  case HostOpenDevTools
  then show ?thesis by (simp add: quiet_def split: option.splits)
qed (simp_all add: assms calm_quiet calm_updatePreferredSize calm_maybeClose calm_window_closed
      calm_destroy calm_setSize split: option.splits)

lemma step_early:
  assumes "early (load_task (state_of (step e s)))"
  shows "early (load_task s) \<and> show_calls (state_of (step e s)) = show_calls s \<and>
     (\<forall>w. shown w (state_of (step e s)) \<longrightarrow> shown w s)"
proof -
  have other: ?thesis if "quiet s (state_of (step e s))"
    using that assms by (simp add: quiet_def)
  show ?thesis
  proof (cases e)
    case (PreferredSizeChanged sz)
    then show ?thesis using other by (simp add: calm_quiet calm_updatePreferredSize)
  next
    case DevtoolsClosed
    then show ?thesis using other by (simp add: calm_quiet calm_maybeClose)
  next
    case Blur
    then show ?thesis using other by (simp add: calm_quiet calm_maybeClose)
  next
    case PopupWindowClosed
    then show ?thesis using other by (simp add: calm_quiet calm_window_closed split: option.splits)
  next
    case ParentWindowClosed
    then show ?thesis using other by (simp add: calm_quiet calm_window_closed split: option.splits)
  next
    case LoadURLSettled
    show ?thesis
    proof (cases "load_task s")
      case (AwaitLoadURL win)
      with LoadURLSettled show ?thesis
        using load_after_loadURL_unshown [of win s] by simp
    qed (use LoadURLSettled other in simp_all)
  next
    case (HasChildNodesResult b)
    show ?thesis
    proof (cases "load_task s")
      case (AwaitHasChildNodes win)
      with HasChildNodesResult assms show ?thesis
        using not_early_after_hasChildNodes [of win b s] by simp
    qed (use HasChildNodesResult other in simp_all)
  next
    case DelayElapsed
    show ?thesis
    proof (cases "load_task s")
      case (AwaitDelay win)
      with DelayElapsed assms show ?thesis
        using not_early_after_delay [of win s] by simp
    qed (use DelayElapsed other in simp_all)
  next
    case (MeasurementResult rect)
    show ?thesis
    proof (cases "load_task s")
      case (AwaitMeasurement win)
      with MeasurementResult assms show ?thesis
        using not_early_after_measurement [of win rect s] by simp
    qed (use MeasurementResult other in simp_all)
  next
    case CallerDestroy
    then show ?thesis using other by (simp add: calm_quiet calm_destroy)
  next
    case (CallerSetSize rect)
    then show ?thesis using other by (simp add: calm_quiet calm_setSize)
  next
    case (HostFocus f)
    then show ?thesis using other by (cases f) (simp_all add: quiet_def)
  next
    case (HostMoveWindow w r)
    then show ?thesis using other by (simp add: quiet_def)
  next
    case HostOpenDevTools
    then show ?thesis using other by (simp add: quiet_def split: option.splits)
  qed
qed

lemma run_early:
  "early (load_task (run es s)) \<Longrightarrow>
     early (load_task s) \<and> show_calls (run es s) = show_calls s \<and>
     (\<forall>w. shown w (run es s) \<longrightarrow> shown w s)"
proof (induction es arbitrary: s)
  case Nil
  then show ?case by simp
next
  case (Cons e es)
  from Cons.prems have "early (load_task (run es (state_of (step e s))))" by simp
  from Cons.IH [OF this] step_early [of e s] show ?case by simp
qed

lemma run_finished: "load_task s = Finished \<Longrightarrow> quiet s (run es s)"
proof (induction es arbitrary: s)
  case Nil
  show ?case by simp
next
  case (Cons e es)
  have q: "quiet s (state_of (step e s))"
    using Cons.prems by (rule quiet_step_finished)
  then have "load_task (state_of (step e s)) = Finished"
    using Cons.prems by (simp add: quiet_def)
  from quiet_trans [OF q Cons.IH [OF this]] show ?case by simp
qed


lemma on_closed_Returned:
  "on_closed w l s = Returned s' \<Longrightarrow>
     s' = update_window w (\<lambda>bw. bw\<lparr>closed_listeners := closed_listeners bw @ [l]\<rparr>) s"
  by (simp add: on_closed_def split: if_splits)

lemma constructor_popup:
  assumes "constructor opts initial ws focused = Returned s0"
  shows "browserWindow s0 = Some (fresh_handle ws) \<and> show_calls s0 = [] \<and>
     \<not> shown (fresh_handle ws) s0 \<and> \<not> destroyed s0"
proof -
  let ?w = "fresh_handle ws"
  let ?i = "\<lparr>browserWindow = None, parent = opts_parent opts,
                 anchorWindow = opts_anchorWindow opts, anchorWindowBounds = None,
                 extensionId = opts_extensionId opts, anchorRect = opts_anchorRect opts,
                 destroyed = False, usingPreferredSize = False, load_task = Finished,
                 windows = ws, focusedWindow = focused, calls = []\<rparr>"
  obtain ab where ab: "snapshot_bounds ?i = Inr ab"
    using assms by (cases "snapshot_bounds ?i") (simp_all add: constructor_def)
  let ?s1 = "?i\<lparr>anchorWindowBounds := ab,
                 windows := ws @ [(?w, \<lparr>bounds = initial, win_destroyed = False,
                     devToolsOpened = False, visible = False, closed_listeners = []\<rparr>)],
                 browserWindow := Some ?w\<rparr>"
  have rest: "andThen (on_closed ?w ThisDestroy ?s1)
            (\<lambda>s2. case parent s2 of
                    None \<Rightarrow> Threw TypeErrorUndefined s2
                  | Some p \<Rightarrow>
                      andThen (on_closed p ThisDestroy s2)
                        (\<lambda>s3. Returned (state_of (suspend (load_start (opts_url opts) s3)))))
          = Returned s0"
    using assms ab by (simp add: constructor_def new_BrowserWindow_def Let_def)
  have s1: "show_calls ?s1 = []" "\<not> shown ?w ?s1" "browserWindow ?s1 = Some ?w"
    "\<not> destroyed ?s1"
    by (simp_all add: show_calls_def shown_def fresh_handle_fresh map_add_def)
  obtain s2 where s2: "on_closed ?w ThisDestroy ?s1 = Returned s2"
    using rest by (cases "on_closed ?w ThisDestroy ?s1") simp_all
  have f2: "show_calls s2 = []" "\<not> shown ?w s2" "browserWindow s2 = Some ?w"
    "\<not> destroyed s2"
    using s1 unfolding on_closed_Returned [OF s2] by simp_all
  obtain p where p: "parent s2 = Some p"
    using rest s2 by (cases "parent s2") simp_all
  obtain s3 where s3: "on_closed p ThisDestroy s2 = Returned s3"
    using rest s2 p by (cases "on_closed p ThisDestroy s2") simp_all
  have f3: "show_calls s3 = []" "\<not> shown ?w s3" "browserWindow s3 = Some ?w"
    "\<not> destroyed s3"
    using f2 unfolding on_closed_Returned [OF s3] by simp_all
  have "s0 = state_of (suspend (load_start (opts_url opts) s3))"
    using rest s2 p s3 by simp
  then show ?thesis
    using load_start_unshown [of "opts_url opts" s3] f3 by simp
qed

lemmas eval_defs = example_state_def setSize_def updatePosition_def destroy_def destroy_parent_def
  destroy_browserWindow_def maybeClose_def updatePreferredSize_def queryPreferredSize_start_def
  queryPreferredSize_resume_def load_after_query_def load_after_measurement_def load_after_delay_def
  load_after_hasChildNodes_def load_after_loadURL_def domReady_def domReady_after_delay_def
  domReady_after_query_def domReady_after_measurement_def finishing_def minimum_size_def
  executeJavaScript_def loadURL_def setBounds_def off_closed_def closeDevTools_def win_show_def
  win_destroy_def host_destroy_window_def host_call_def update_window_def log_call_def
  getBounds_def isDestroyed_win_def isDevToolsOpened_def webContents_isDestroyed_def
  bounds_of_def shown_def show_calls_def or_zero_def remove_listener_def
  BOUNDS_minWidth_def BOUNDS_minHeight_def BOUNDS_maxWidth_def BOUNDS_maxHeight_def Let_def
  js_add_exact

lemma latched_query_skipped:
  "usingPreferredSize s \<Longrightarrow> queryPreferredSize_start s = Returned (False, s)"
  by (simp add: queryPreferredSize_start_def)

lemma load_resumes_guarded:
  assumes "destroyed s"
  shows "load_after_loadURL win s = Returned (Finished, s)"
    "load_after_delay win s = Returned (Finished, s)"
    "load_after_measurement win rect s = Returned (Finished, s)"
  using assms
  by (simp_all add: load_after_loadURL_def load_after_delay_def load_after_measurement_def
      queryPreferredSize_resume_def load_after_query_def)

lemma load_after_hasChildNodes_unguarded:
  "usingPreferredSize s \<Longrightarrow> load_after_hasChildNodes win True s = finishing (win_show win s)"
  by (simp add: load_after_hasChildNodes_def)

lemma domReady_after_delay_unguarded:
  "destroyed s \<Longrightarrow> domReady_after_delay win s = finishing (win_show win s)"
  by (simp add: domReady_after_delay_def queryPreferredSize_start_def domReady_after_query_def)

lemma isDevToolsOpened_drop [simp]:
  "isDevToolsOpened w'
     (update_window w (\<lambda>bw. bw\<lparr>closed_listeners := remove_listener l (closed_listeners bw)\<rparr>) s)
   = isDevToolsOpened w' s"
  by simp

lemma listeners_of_drop_cases:
  "listeners_of w'
     (update_window w (\<lambda>bw. bw\<lparr>closed_listeners := remove_listener l (closed_listeners bw)\<rparr>) s)
   = (if w' = w then remove_listener l (listeners_of w' s) else listeners_of w' s)"
  by (auto simp: listeners_of_def lookup_update_window remove_listener_def split: option.splits)

lemma destroy_parent_effect:
  "\<exists>s1. destroy_parent s = Returned s1 \<and>
     calls s1 = calls s @
       (case parent s of None \<Rightarrow> []
        | Some p \<Rightarrow> if isDestroyed_win p s then [] else [CallOff p ThisDestroy]) \<and>
     browserWindow s1 = browserWindow s \<and>
     (\<forall>w. isDestroyed_win w s1 = isDestroyed_win w s) \<and>
     (\<forall>w. isDevToolsOpened w s1 = isDevToolsOpened w s) \<and>
     (\<forall>w. listeners_of w s1 =
        (if parent s = Some w \<and> \<not> isDestroyed_win w s
         then remove_listener ThisDestroy (listeners_of w s) else listeners_of w s))"
proof (cases "parent s")
  case None
  then show ?thesis by (simp add: destroy_parent_None)
next
  case (Some p)
  then show ?thesis
    by (cases "isDestroyed_win p s")
       (auto simp: destroy_parent_dead destroy_parent_live listeners_of_drop_cases)
qed

lemma listeners_of_field_calls [simp]:
  "listeners_of w (s\<lparr>calls := c\<rparr>) = listeners_of w s"
  by (simp add: listeners_of_def)

lemma destroy_browserWindow_effect:
  "\<exists>s1. destroy_browserWindow s = Returned s1 \<and>
     calls s1 = calls s @
       (case browserWindow s of None \<Rightarrow> []
        | Some w \<Rightarrow>
            if isDestroyed_win w s then []
            else (if isDevToolsOpened w s then [CallCloseDevTools w] else [])
                 @ [CallOff w ThisDestroy, CallDestroy w]) \<and>
     (\<forall>w. isDestroyed_win w s1 = (isDestroyed_win w s \<or> browserWindow s = Some w)) \<and>
     (\<forall>w. listeners_of w s1 =
        (if browserWindow s = Some w \<and> \<not> isDestroyed_win w s
         then remove_listener ThisDestroy (listeners_of w s) else listeners_of w s))"
proof (cases "browserWindow s")
  case None
  then show ?thesis by (simp add: destroy_browserWindow_None)
next
  case (Some w)
  show ?thesis
  proof (cases "isDestroyed_win w s")
    case True
    with Some show ?thesis by (auto simp: destroy_browserWindow_dead)
  next
    case False
    with Some show ?thesis
      by (cases "isDevToolsOpened w s")
         (auto simp: destroy_browserWindow_live destroy_browserWindow_devtools
            listeners_of_drop_cases)
  qed
qed

lemma destroy_effect:
  assumes "\<not> destroyed s"
  shows "\<exists>s1. destroy s = Returned s1 \<and>
     calls s1 = calls s @
       (case parent s of None \<Rightarrow> []
        | Some p \<Rightarrow> if isDestroyed_win p s then [] else [CallOff p ThisDestroy]) @
       (case browserWindow s of None \<Rightarrow> []
        | Some w \<Rightarrow>
            if isDestroyed_win w s then []
            else (if isDevToolsOpened w s then [CallCloseDevTools w] else [])
                 @ [CallOff w ThisDestroy, CallDestroy w]) \<and>
     (\<forall>w. isDestroyed_win w s1 = (isDestroyed_win w s \<or> browserWindow s = Some w)) \<and>
     (\<forall>w. listeners_of w s1 =
        (if browserWindow s = Some w \<and> \<not> isDestroyed_win w s
         then remove_listener ThisDestroy else (\<lambda>ls. ls))
          ((if parent s = Some w \<and> \<not> isDestroyed_win w s
            then remove_listener ThisDestroy else (\<lambda>ls. ls)) (listeners_of w s)))"
proof -
  let ?s0 = "s\<lparr>destroyed := True\<rparr>"
  obtain sp where sp: "destroy_parent ?s0 = Returned sp"
    "calls sp = calls ?s0 @
       (case parent ?s0 of None \<Rightarrow> []
        | Some p \<Rightarrow> if isDestroyed_win p ?s0 then [] else [CallOff p ThisDestroy])"
    "browserWindow sp = browserWindow ?s0"
    "\<forall>w. isDestroyed_win w sp = isDestroyed_win w ?s0"
    "\<forall>w. isDevToolsOpened w sp = isDevToolsOpened w ?s0"
    "\<forall>w. listeners_of w sp =
        (if parent ?s0 = Some w \<and> \<not> isDestroyed_win w ?s0
         then remove_listener ThisDestroy (listeners_of w ?s0) else listeners_of w ?s0)"
    using destroy_parent_effect [of ?s0] by blast
  obtain s1 where s1: "destroy_browserWindow sp = Returned s1"
    "calls s1 = calls sp @
       (case browserWindow sp of None \<Rightarrow> []
        | Some w \<Rightarrow>
            if isDestroyed_win w sp then []
            else (if isDevToolsOpened w sp then [CallCloseDevTools w] else [])
                 @ [CallOff w ThisDestroy, CallDestroy w])"
    "\<forall>w. isDestroyed_win w s1 = (isDestroyed_win w sp \<or> browserWindow sp = Some w)"
    "\<forall>w. listeners_of w s1 =
        (if browserWindow sp = Some w \<and> \<not> isDestroyed_win w sp
         then remove_listener ThisDestroy (listeners_of w sp) else listeners_of w sp)"
    using destroy_browserWindow_effect [of sp] by blast
  have d: "destroy s = Returned s1"
    using assms sp(1) s1(1) by (simp add: destroy_def)
  have c: "calls s1 = calls s @
       (case parent s of None \<Rightarrow> []
        | Some p \<Rightarrow> if isDestroyed_win p s then [] else [CallOff p ThisDestroy]) @
       (case browserWindow s of None \<Rightarrow> []
        | Some w \<Rightarrow>
            if isDestroyed_win w s then []
            else (if isDevToolsOpened w s then [CallCloseDevTools w] else [])
                 @ [CallOff w ThisDestroy, CallDestroy w])"
    using s1(2) sp(2,3,4,5) by (simp split: option.splits)
  have k: "\<forall>w. isDestroyed_win w s1 = (isDestroyed_win w s \<or> browserWindow s = Some w)"
    using s1(3) sp(3,4) by simp
  have l: "\<forall>w. listeners_of w s1 =
        (if browserWindow s = Some w \<and> \<not> isDestroyed_win w s
         then remove_listener ThisDestroy else (\<lambda>ls. ls))
          ((if parent s = Some w \<and> \<not> isDestroyed_win w s
            then remove_listener ThisDestroy else (\<lambda>ls. ls)) (listeners_of w s))"
    using s1(4) sp(3,4,6) by simp
  show ?thesis using d c k l by blast
qed

subsection \<open>Claims\<close>

text \<open>
  C1. Whenever \<open>setSize\<close> applies a size (the popup has its window, alive, and its
  parent), the width it sets is the floor of the requested width (0 when missing)
  clamped to \<open>[25, 800]\<close>, the height likewise with \<open>[25, 600]\<close>; both are integers
  within these bounds, and the origin of the window is kept.
\<close>

theorem setSize_applies_clamped:
  assumes "browserWindow s = Some w" "parent s = Some p" "getBounds w s = Inr b"
  shows "\<exists>s'. setSize rect s = Returned s' \<and>
     bounds_of w s' = Some (b\<lparr>rect_width := clamp_floor 25 800 (opt_width rect),
                               rect_height := clamp_floor 25 600 (opt_height rect)\<rparr>) \<and>
     calls s' = calls s @ [CallSetBounds w (b\<lparr>rect_width := clamp_floor 25 800 (opt_width rect),
                                               rect_height := clamp_floor 25 600 (opt_height rect)\<rparr>)] \<and>
     25 \<le> clamp_floor 25 800 (opt_width rect) \<and> clamp_floor 25 800 (opt_width rect) \<le> 800 \<and>
     25 \<le> clamp_floor 25 600 (opt_height rect) \<and> clamp_floor 25 600 (opt_height rect) \<le> 600"
proof -
  have w: "\<lfloor>min BOUNDS_maxWidth (max (or_zero (opt_width rect)) BOUNDS_minWidth)\<rfloor>
             = clamp_floor 25 800 (opt_width rect)"
    using clamp_floor_eq [of 25 800] by (simp add: BOUNDS_maxWidth_def BOUNDS_minWidth_def)
  have h: "\<lfloor>min BOUNDS_maxHeight (max (or_zero (opt_height rect)) BOUNDS_minHeight)\<rfloor>
             = clamp_floor 25 600 (opt_height rect)"
    using clamp_floor_eq [of 25 600] by (simp add: BOUNDS_maxHeight_def BOUNDS_minHeight_def)
  have live: "\<not> isDestroyed_win w s"
    using assms(3) by (simp add: getBounds_Inr)
  have bw: "25 \<le> clamp_floor 25 800 (opt_width rect) \<and> clamp_floor 25 800 (opt_width rect) \<le> 800"
    using clamp_floor_bounds [of 25 800 "opt_width rect"] by simp
  have bh: "25 \<le> clamp_floor 25 600 (opt_height rect) \<and> clamp_floor 25 600 (opt_height rect) \<le> 600"
    using clamp_floor_bounds [of 25 600 "opt_height rect"] by simp
  show ?thesis
    using bw bh live
    by (simp add: setSize_live [OF assms] w h setBounds_live [OF assms(3)] bounds_of_setBounds)
qed

theorem setSize_applies_clamped_witness:
  "\<exists>s'. setSize \<lparr>opt_x = None, opt_y = None, opt_width = Some 900, opt_height = Some 10\<rparr> example_state
            = Returned s' \<and>
     bounds_of 2 s' = Some \<lparr>rect_x = 0, rect_y = 0, rect_width = 800, rect_height = 25\<rparr> \<and>
     calls s' = [CallLoadURL 2 ''popup.html'',
                 CallSetBounds 2 \<lparr>rect_x = 0, rect_y = 0, rect_width = 800, rect_height = 25\<rparr>]"
  using setSize_applies_clamped [of example_state 2 1
      "\<lparr>rect_x = 0, rect_y = 0, rect_width = 800, rect_height = 600\<rparr>"
      "\<lparr>opt_x = None, opt_y = None, opt_width = Some 900, opt_height = Some 10\<rparr>"]
  by (simp add: clamp_floor_def or_zero_def)

text \<open>
  C6. With a live window and an anchor snapshot, \<open>updatePosition\<close> moves the popup to
  \<open>Math.floor(anchorWindowBounds.x + anchorRect.x)\<close> and
  \<open>Math.floor(anchorWindowBounds.y + anchorRect.y)\<close>, the sums being sums of doubles,
  whatever its position was, and keeps its width and height. The witness has the
  example of the claim, origin \<open>(100, 50)\<close> with offset \<open>(10, 20)\<close>, and an offset
  \<open>(0.9999999999999999, 114.99999999999999)\<close> whose sums round up to \<open>101\<close> and
  \<open>165\<close>.
\<close>

theorem updatePosition_origin:
  assumes "browserWindow s = Some w" "anchorWindowBounds s = Some ab" "getBounds w s = Inr b"
  shows "\<exists>s' b'. updatePosition s = Returned s' \<and> bounds_of w s' = Some b' \<and>
     rect_x b' = \<lfloor>js_add (real_of_int (rect_x ab)) (anchor_x (anchorRect s))\<rfloor> \<and>
     rect_y b' = \<lfloor>js_add (real_of_int (rect_y ab)) (anchor_y (anchorRect s))\<rfloor> \<and>
     rect_width b' = rect_width b \<and> rect_height b' = rect_height b \<and>
     anchorWindowBounds s' = Some ab"
proof -
  have live: "\<not> isDestroyed_win w s"
    using assms(3) by (simp add: getBounds_Inr)
  then show ?thesis
    using assms(2)
    by (simp add: updatePosition_live [OF assms] setBounds_live [OF assms(3)] bounds_of_setBounds)
qed

theorem updatePosition_origin_witness:
  "(\<exists>s' b'. updatePosition example_state = Returned s' \<and> bounds_of 2 s' = Some b' \<and>
     rect_x b' = 110 \<and> rect_y b' = 70 \<and> rect_width b' = 800 \<and> rect_height b' = 600 \<and>
     anchorWindowBounds s' = Some \<lparr>rect_x = 100, rect_y = 50, rect_width = 1024, rect_height = 768\<rparr>) \<and>
   (\<exists>s' b'. updatePosition
        (example_state\<lparr>anchorRect :=
           \<lparr>anchor_x = 9007199254740991 / 9007199254740992,
            anchor_y = 8092405580431359 / 70368744177664,
            anchor_width = 30, anchor_height = 20\<rparr>\<rparr>) = Returned s' \<and>
     bounds_of 2 s' = Some b' \<and>
     rect_x b' = 101 \<and> rect_y b' = 165 \<and> rect_width b' = 800 \<and> rect_height b' = 600 \<and>
     anchorWindowBounds s' = Some \<lparr>rect_x = 100, rect_y = 50, rect_width = 1024, rect_height = 768\<rparr>)"
proof -
  let ?r = "example_state\<lparr>anchorRect :=
           \<lparr>anchor_x = 9007199254740991 / 9007199254740992,
            anchor_y = 8092405580431359 / 70368744177664,
            anchor_width = 30, anchor_height = 20\<rparr>\<rparr>"
  have pre: "browserWindow ?r = Some 2"
    "anchorWindowBounds ?r = Some \<lparr>rect_x = 100, rect_y = 50, rect_width = 1024, rect_height = 768\<rparr>"
    "getBounds 2 ?r = Inr \<lparr>rect_x = 0, rect_y = 0, rect_width = 800, rect_height = 600\<rparr>"
    by (simp_all add: getBounds_def example_state_def)
  have 1: "\<exists>s' b'. updatePosition example_state = Returned s' \<and> bounds_of 2 s' = Some b' \<and>
     rect_x b' = 110 \<and> rect_y b' = 70 \<and> rect_width b' = 800 \<and> rect_height b' = 600 \<and>
     anchorWindowBounds s' = Some \<lparr>rect_x = 100, rect_y = 50, rect_width = 1024, rect_height = 768\<rparr>"
    using updatePosition_origin [of example_state 2
      "\<lparr>rect_x = 100, rect_y = 50, rect_width = 1024, rect_height = 768\<rparr>"
      "\<lparr>rect_x = 0, rect_y = 0, rect_width = 800, rect_height = 600\<rparr>"]
    by (simp add: js_add_exact)
  have 2: "\<exists>s' b'. updatePosition ?r = Returned s' \<and>
     bounds_of 2 s' = Some b' \<and>
     rect_x b' = 101 \<and> rect_y b' = 165 \<and> rect_width b' = 800 \<and> rect_height b' = 600 \<and>
     anchorWindowBounds s' = Some \<lparr>rect_x = 100, rect_y = 50, rect_width = 1024, rect_height = 768\<rparr>"
    using updatePosition_origin [OF pre]
    by (simp add: js_add_below_101 js_add_below_165)
  show ?thesis using 1 2 by blast
qed

text \<open>
  C5. \<open>maybeClose\<close> leaves the popup as it is while its devtools are open, and when
  no window of the application has the focus. In every other case it is \<open>destroy\<close>:
  the popup ends destroyed, and a popup that was not destroyed before ends without
  references and with its window destroyed.
\<close>

theorem maybeClose_policy:
  "(devtools_open s \<longrightarrow> maybeClose s = Returned s) \<and>
   (focusedWindow s = None \<longrightarrow> maybeClose s = Returned s) \<and>
   (\<not> devtools_open s \<and> focusedWindow s \<noteq> None \<longrightarrow>
      maybeClose s = destroy s \<and>
      (\<exists>s'. maybeClose s = Returned s' \<and> destroyed s' \<and>
         (\<not> destroyed s \<longrightarrow>
            cleared s' \<and>
            (case browserWindow s of None \<Rightarrow> True | Some w \<Rightarrow> isDestroyed_win w s'))))"
proof (intro conjI impI)
  assume "devtools_open s"
  then show "maybeClose s = Returned s"
    by (auto simp: devtools_open_def maybeClose_def split: option.splits)
next
  assume "focusedWindow s = None"
  then show "maybeClose s = Returned s"
    by (simp add: maybeClose_def)
next
  assume a: "\<not> devtools_open s \<and> focusedWindow s \<noteq> None"
  then show eq: "maybeClose s = destroy s"
    by (auto simp: devtools_open_def maybeClose_def split: option.splits)
  obtain s' where s': "destroy s = Returned s'" "cleared s' = (\<not> destroyed s \<or> cleared s)"
    using destroy_returns [of s] by blast
  have d: "destroyed s'"
    using s' by (cases "destroyed s") (auto simp: destroy_again cleared_def)
  have k: "case browserWindow s of None \<Rightarrow> True | Some w \<Rightarrow> isDestroyed_win w s'"
    if "\<not> destroyed s"
    using that s'(1) by (auto split: option.splits intro: destroy_kills)
  show "\<exists>s'. maybeClose s = Returned s' \<and> destroyed s' \<and>
         (\<not> destroyed s \<longrightarrow>
            cleared s' \<and>
            (case browserWindow s of None \<Rightarrow> True | Some w \<Rightarrow> isDestroyed_win w s'))"
    using eq s' d k by auto
qed


theorem maybeClose_policy_witness:
  "devtools_open (state_of (step HostOpenDevTools example_state)) \<and>
   maybeClose (state_of (step HostOpenDevTools example_state))
     = Returned (state_of (step HostOpenDevTools example_state)) \<and>
   focusedWindow (example_state\<lparr>focusedWindow := None\<rparr>) = None \<and>
   maybeClose (example_state\<lparr>focusedWindow := None\<rparr>)
     = Returned (example_state\<lparr>focusedWindow := None\<rparr>) \<and>
   \<not> devtools_open example_state \<and> focusedWindow example_state \<noteq> None \<and>
   maybeClose example_state = destroy example_state \<and>
   (\<exists>s'. maybeClose example_state = Returned s' \<and> destroyed s' \<and> cleared s' \<and>
         isDestroyed_win 2 s')"
proof -
  let ?A = "state_of (step HostOpenDevTools example_state)"
  have a: "devtools_open ?A"
    by (simp add: devtools_open_def isDevToolsOpened_def isDestroyed_win_def update_window_def
        example_state_def)
  have c: "\<not> devtools_open example_state" "focusedWindow example_state \<noteq> None"
    by (simp_all add: devtools_open_def)
  have 1: "maybeClose ?A = Returned ?A"
    using maybeClose_policy [of ?A] a by blast
  have 2: "maybeClose (example_state\<lparr>focusedWindow := None\<rparr>)
             = Returned (example_state\<lparr>focusedWindow := None\<rparr>)"
    using maybeClose_policy [of "example_state\<lparr>focusedWindow := None\<rparr>"] by simp
  have 3: "maybeClose example_state = destroy example_state"
    using maybeClose_policy [of example_state] c by blast
  have "\<exists>s'. maybeClose example_state = Returned s' \<and> destroyed s' \<and>
         (\<not> destroyed example_state \<longrightarrow>
            cleared s' \<and>
            (case browserWindow example_state of None \<Rightarrow> True | Some w \<Rightarrow> isDestroyed_win w s'))"
    using maybeClose_policy [of example_state] c by blast
  then have "\<exists>s'. maybeClose example_state = Returned s' \<and> destroyed s' \<and> cleared s' \<and>
         isDestroyed_win 2 s'"
    by simp
  with a c 1 2 3 show ?thesis by simp
qed

text \<open>
  C10. After \<open>destroy\<close> has run on a popup, and whatever happens afterwards,
  \<open>setSize\<close> and \<open>updatePosition\<close> return without touching anything, and a
  preferred-size notification sets the flag \<open>usingPreferredSize\<close> and nothing else;
  none of them throws.
\<close>

theorem after_destroy_inert:
  assumes "\<not> destroyed s"
  shows "\<exists>s1. destroy s = Returned s1 \<and> cleared s1 \<and>
     (\<forall>es. setSize rect (run es s1) = Returned (run es s1) \<and>
           updatePosition (run es s1) = Returned (run es s1) \<and>
           updatePreferredSize sz (run es s1)
             = Returned ((run es s1)\<lparr>usingPreferredSize := True\<rparr>))"
proof -
  obtain s1 where s1: "destroy s = Returned s1" "cleared s1 = (\<not> destroyed s \<or> cleared s)"
    using destroy_returns [of s] by blast
  with assms have c: "cleared s1" by simp
  have "cleared (run es s1)" for es
    using evolves_cleared [OF evolves_run c] .
  then show ?thesis
    using s1(1) c by (auto simp: cleared_inert)
qed

theorem after_destroy_inert_witness:
  "\<exists>s1. destroy example_state = Returned s1 \<and> cleared s1 \<and>
     (\<forall>es. setSize \<lparr>opt_x = None, opt_y = None, opt_width = Some 300, opt_height = Some 200\<rparr> (run es s1)
             = Returned (run es s1) \<and>
           updatePosition (run es s1) = Returned (run es s1) \<and>
           updatePreferredSize \<lparr>opt_x = None, opt_y = None, opt_width = Some 300, opt_height = Some 200\<rparr>
               (run es s1)
             = Returned ((run es s1)\<lparr>usingPreferredSize := True\<rparr>))"
  using after_destroy_inert [of example_state] by simp

text \<open>
  C9. \<open>anchorWindowBounds\<close> is the bounds the anchor window had when the popup was
  constructed if there is an anchor, else those of the parent if there is a parent,
  else null; and it keeps that value whatever happens afterwards, also when the host
  moves the anchor. (The window read for the snapshot has to be alive; a constructor
  that threw later, as it does without a parent, has made the same snapshot.)
\<close>

theorem anchorWindowBounds_snapshot:
  assumes "case opts_anchorWindow opts of
             Some a \<Rightarrow> host_alive ws a
           | None \<Rightarrow> (case opts_parent opts of Some p \<Rightarrow> host_alive ws p | None \<Rightarrow> True)"
  shows "anchorWindowBounds (run es (state_of (constructor opts initial ws focused))) =
     (case opts_anchorWindow opts of
        Some a \<Rightarrow> map_option bounds (map_of ws a)
      | None \<Rightarrow> (case opts_parent opts of
                    Some p \<Rightarrow> map_option bounds (map_of ws p)
                  | None \<Rightarrow> None))"
proof -
  let ?s0 = "\<lparr>browserWindow = None, parent = opts_parent opts,
                 anchorWindow = opts_anchorWindow opts, anchorWindowBounds = None,
                 extensionId = opts_extensionId opts, anchorRect = opts_anchorRect opts,
                 destroyed = False, usingPreferredSize = False, load_task = Finished,
                 windows = ws, focusedWindow = focused, calls = []\<rparr>"
  have "snapshot_bounds ?s0 =
    Inr (case opts_anchorWindow opts of
        Some a \<Rightarrow> map_option bounds (map_of ws a)
      | None \<Rightarrow> (case opts_parent opts of
                    Some p \<Rightarrow> map_option bounds (map_of ws p)
                  | None \<Rightarrow> None))"
    using assms by (intro snapshot_bounds_alive) simp_all
  then have "anchorWindowBounds (state_of (constructor opts initial ws focused)) =
     (case opts_anchorWindow opts of
        Some a \<Rightarrow> map_option bounds (map_of ws a)
      | None \<Rightarrow> (case opts_parent opts of
                    Some p \<Rightarrow> map_option bounds (map_of ws p)
                  | None \<Rightarrow> None))"
    by (simp add: constructor_def Let_def constructor_after_snapshot)
  then show ?thesis by (simp add: awb_run)
qed

theorem anchorWindowBounds_snapshot_witness:
  "anchorWindowBounds
     (run [HostMoveWindow 1 \<lparr>rect_x = 0, rect_y = 0, rect_width = 640, rect_height = 480\<rparr>,
           PreferredSizeChanged \<lparr>opt_x = None, opt_y = None, opt_width = Some 300, opt_height = Some 200\<rparr>]
        (state_of (constructor example_options example_initial [(1, example_parent)] (Some 1))))
   = Some \<lparr>rect_x = 100, rect_y = 50, rect_width = 1024, rect_height = 768\<rparr> \<and>
   bounds_of 1 (state_of (step (HostMoveWindow 1 \<lparr>rect_x = 0, rect_y = 0, rect_width = 640, rect_height = 480\<rparr>)
       (state_of (constructor example_options example_initial [(1, example_parent)] (Some 1)))))
   = Some \<lparr>rect_x = 0, rect_y = 0, rect_width = 640, rect_height = 480\<rparr>"
proof -
  have h: "case opts_anchorWindow example_options of
             Some a \<Rightarrow> host_alive [(1, example_parent)] a
           | None \<Rightarrow> (case opts_parent example_options of
                         Some p \<Rightarrow> host_alive [(1, example_parent)] p | None \<Rightarrow> True)"
    by (simp add: example_options_def host_alive_def example_parent_def)
  have m: "bounds_of 1 (state_of (step (HostMoveWindow 1 \<lparr>rect_x = 0, rect_y = 0, rect_width = 640, rect_height = 480\<rparr>) example_state))
     = Some \<lparr>rect_x = 0, rect_y = 0, rect_width = 640, rect_height = 480\<rparr>"
    by (simp add: bounds_of_setBounds)
  have t: "anchorWindowBounds
      (run es (state_of (constructor example_options example_initial [(1, example_parent)] (Some 1))))
     = Some \<lparr>rect_x = 100, rect_y = 50, rect_width = 1024, rect_height = 768\<rparr>" for es
    using anchorWindowBounds_snapshot [OF h, of es example_initial "Some 1"]
    by (simp add: example_options_def example_parent_def)
  show ?thesis
    using t m by (simp only: example_constructed state_of.simps simp_thms)
qed

text \<open>
  C7, as the code has it. On a preferred-size notification for a popup with a live
  window, its parent reference and an anchor snapshot, \<open>updatePreferredSize\<close> sets
  \<open>usingPreferredSize\<close>, which then stays set whatever happens, gives the window the
  notified size clamped to the bounds, and moves it to the anchor position (the floors
  of the sums of doubles, as \<open>updatePosition\<close> computes them). It does not
  show the popup: the window is as visible as before and no \<open>show\<close> call is made
  (showing is left to \<open>load\<close>).
\<close>

theorem updatePreferredSize_effect:
  assumes "browserWindow s = Some w" "parent s = Some p" "anchorWindowBounds s = Some ab"
    "getBounds w s = Inr b"
  shows "\<exists>s'. updatePreferredSize sz s = Returned s' \<and>
     usingPreferredSize s' \<and> (\<forall>es. usingPreferredSize (run es s')) \<and>
     bounds_of w s' =
       Some \<lparr>rect_x = \<lfloor>js_add (real_of_int (rect_x ab)) (anchor_x (anchorRect s))\<rfloor>,
             rect_y = \<lfloor>js_add (real_of_int (rect_y ab)) (anchor_y (anchorRect s))\<rfloor>,
             rect_width = clamp_floor 25 800 (opt_width sz),
             rect_height = clamp_floor 25 600 (opt_height sz)\<rparr> \<and>
     shown w s' = shown w s \<and> show_calls s' = show_calls s"
proof -
  let ?s1 = "s\<lparr>usingPreferredSize := True\<rparr>"
  have "\<exists>s'. andThen (setSize sz ?s1) updatePosition = Returned s' \<and>
     same_popup ?s1 s' \<and>
     bounds_of w s' =
       Some \<lparr>rect_x = \<lfloor>js_add (real_of_int (rect_x ab)) (anchor_x (anchorRect ?s1))\<rfloor>,
             rect_y = \<lfloor>js_add (real_of_int (rect_y ab)) (anchor_y (anchorRect ?s1))\<rfloor>,
             rect_width = clamp_floor 25 800 (opt_width sz),
             rect_height = clamp_floor 25 600 (opt_height sz)\<rparr> \<and>
     shown w s' = shown w ?s1"
    using assms by (intro size_then_position) simp_all
  then obtain s' where s': "updatePreferredSize sz s = Returned s'" "same_popup ?s1 s'"
    "bounds_of w s' =
       Some \<lparr>rect_x = \<lfloor>js_add (real_of_int (rect_x ab)) (anchor_x (anchorRect s))\<rfloor>,
             rect_y = \<lfloor>js_add (real_of_int (rect_y ab)) (anchor_y (anchorRect s))\<rfloor>,
             rect_width = clamp_floor 25 800 (opt_width sz),
             rect_height = clamp_floor 25 600 (opt_height sz)\<rparr>"
    "shown w s' = shown w s"
    by (auto simp: updatePreferredSize_def)
  from s'(2) have l: "usingPreferredSize s'" and c: "show_calls s' = show_calls s"
    by (simp_all add: same_popup_def)
  from l have "usingPreferredSize (run es s')" for es
    by (rule latch_run)
  with s' l c show ?thesis by blast
qed

theorem updatePreferredSize_effect_witness:
  "\<exists>s'. updatePreferredSize \<lparr>opt_x = None, opt_y = None, opt_width = Some 300, opt_height = Some 200\<rparr>
            example_state = Returned s' \<and>
     usingPreferredSize s' \<and> (\<forall>es. usingPreferredSize (run es s')) \<and>
     bounds_of 2 s' = Some \<lparr>rect_x = 110, rect_y = 70, rect_width = 300, rect_height = 200\<rparr> \<and>
     shown 2 s' = shown 2 example_state \<and> show_calls s' = show_calls example_state"
  using updatePreferredSize_effect [of example_state 2 1
      "\<lparr>rect_x = 100, rect_y = 50, rect_width = 1024, rect_height = 768\<rparr>"
      "\<lparr>rect_x = 0, rect_y = 0, rect_width = 800, rect_height = 600\<rparr>"
      "\<lparr>opt_x = None, opt_y = None, opt_width = Some 300, opt_height = Some 200\<rparr>"]
  by (simp add: clamp_floor_def or_zero_def js_add_exact)

text \<open>
  C7 as the claim states it fails: the popup of the example has never been shown, and
  the notification leaves it hidden, with no \<open>show\<close> call in the trace.
\<close>

theorem updatePreferredSize_never_shows:
  "\<not> shown 2 example_state \<and>
   \<not> threw (updatePreferredSize
              \<lparr>opt_x = None, opt_y = None, opt_width = Some 300, opt_height = Some 200\<rparr> example_state) \<and>
   usingPreferredSize (state_of (updatePreferredSize
              \<lparr>opt_x = None, opt_y = None, opt_width = Some 300, opt_height = Some 200\<rparr> example_state)) \<and>
   \<not> shown 2 (state_of (updatePreferredSize
              \<lparr>opt_x = None, opt_y = None, opt_width = Some 300, opt_height = Some 200\<rparr> example_state)) \<and>
   show_calls (state_of (updatePreferredSize
              \<lparr>opt_x = None, opt_y = None, opt_width = Some 300, opt_height = Some 200\<rparr> example_state)) = []"
proof -
  let ?sz = "\<lparr>opt_x = None, opt_y = None, opt_width = Some 300, opt_height = Some 200\<rparr>"
  let ?s1 = "example_state\<lparr>usingPreferredSize := True\<rparr>"
  have hid: "\<not> shown 2 example_state" and nc: "show_calls example_state = []"
    by (simp_all add: shown_def show_calls_def example_state_def)
  obtain s' where s': "andThen (setSize ?sz ?s1) updatePosition = Returned s'"
    "same_popup ?s1 s'" "shown 2 s' = shown 2 ?s1"
    using size_then_position [of ?s1 2 1
      "\<lparr>rect_x = 100, rect_y = 50, rect_width = 1024, rect_height = 768\<rparr>"
      "\<lparr>rect_x = 0, rect_y = 0, rect_width = 800, rect_height = 600\<rparr>" ?sz]
    by auto
  then have "updatePreferredSize ?sz example_state = Returned s'"
    by (simp add: updatePreferredSize_def)
  with s' hid nc show ?thesis
    by (simp add: same_popup_def)
qed

text \<open>
  C8. In Variant A, when \<open>load\<close> waits for the content check and the check answers
  that the body has no child nodes, that same step runs \<open>destroy\<close> and ends \<open>load\<close>:
  the popup is destroyed, its two references are cleared and its window is destroyed
  in the host, through the calls that \<open>destroy\<close> makes if the popup was not destroyed
  before. All that stays so whatever happens afterwards. No \<open>show\<close> has been called
  before, none is called in that step or ever after, and the popup's window is never
  visible.
\<close>

theorem empty_popup_never_shown:
  assumes "constructor opts initial ws focused = Returned s0"
    and "load_task (run es s0) = AwaitHasChildNodes win"
  shows "\<exists>s'. step (HasChildNodesResult False) (run es s0) = Returned s' \<and>
     s' = (state_of (destroy (run es s0)))\<lparr>load_task := Finished\<rparr> \<and>
     destroyed s' \<and> cleared s' \<and> isDestroyed_win (fresh_handle ws) s' \<and>
     load_task s' = Finished \<and>
     browserWindow s0 = Some (fresh_handle ws) \<and>
     (\<not> destroyed (run es s0) \<longrightarrow>
        browserWindow (run es s0) = Some (fresh_handle ws) \<and>
        calls s' = calls (run es s0) @
          (case parent (run es s0) of None \<Rightarrow> []
           | Some p \<Rightarrow> if isDestroyed_win p (run es s0) then [] else [CallOff p ThisDestroy]) @
          (if isDestroyed_win (fresh_handle ws) (run es s0) then []
           else (if isDevToolsOpened (fresh_handle ws) (run es s0)
                 then [CallCloseDevTools (fresh_handle ws)] else [])
                @ [CallOff (fresh_handle ws) ThisDestroy, CallDestroy (fresh_handle ws)])) \<and>
     (\<forall>es'. destroyed (run es' s') \<and> cleared (run es' s') \<and>
            isDestroyed_win (fresh_handle ws) (run es' s') \<and>
            show_calls (run es' s') = [] \<and>
            \<not> shown (fresh_handle ws) (run es' s'))"
proof -
  let ?w = "fresh_handle ws"
  let ?s = "run es s0"
  have c: "browserWindow s0 = Some ?w" "show_calls s0 = []" "\<not> shown ?w s0" "\<not> destroyed s0"
    using constructor_popup [OF assms(1)] by simp_all
  have "early (load_task ?s)"
    using assms(2) by simp
  then have e: "show_calls ?s = []" "\<not> shown ?w ?s"
    using run_early [of es s0] c by auto
  have life: "(browserWindow ?s = Some ?w \<and> \<not> destroyed ?s) \<or>
      (cleared ?s \<and> isDestroyed_win ?w ?s)"
    using evolves_run [of s0 es] c by (auto simp: evolves_def)
  obtain sd where sd: "destroy ?s = Returned sd" "cleared sd = (\<not> destroyed ?s \<or> cleared ?s)"
    using destroy_returns [of ?s] by blast
  have cl: "cleared sd"
    using sd(2) life by auto
  have d: "destroyed sd"
    using cl by (simp add: cleared_def)
  have k: "isDestroyed_win ?w sd"
  proof (cases "destroyed ?s")
    case True
    then have "sd = ?s" using sd(1) by (simp add: destroy_again)
    with True life show ?thesis by auto
  next
    case False
    with life have "browserWindow ?s = Some ?w" by (auto simp: cleared_def)
    with False show ?thesis using sd(1) by (rule destroy_kills)
  qed
  have "calm ?s sd"
    using calm_destroy [of ?s] sd by simp
  then have q: "show_calls sd = []" "\<not> shown ?w sd"
    using e by (auto simp: calm_def quiet_def)
  let ?s' = "sd\<lparr>load_task := Finished\<rparr>"
  have st: "step (HasChildNodesResult False) ?s = Returned ?s'"
    using assms(2) sd by (simp add: load_after_hasChildNodes_def finishing_def)
  have eq: "?s' = (state_of (destroy ?s))\<lparr>load_task := Finished\<rparr>"
    using sd(1) by simp
  have now: "destroyed ?s'" "cleared ?s'" "isDestroyed_win ?w ?s'" "load_task ?s' = Finished"
    using d cl k by simp_all
  have cs: "browserWindow ?s = Some ?w \<and>
        calls ?s' = calls ?s @
          (case parent ?s of None \<Rightarrow> []
           | Some p \<Rightarrow> if isDestroyed_win p ?s then [] else [CallOff p ThisDestroy]) @
          (if isDestroyed_win ?w ?s then []
           else (if isDevToolsOpened ?w ?s then [CallCloseDevTools ?w] else [])
                @ [CallOff ?w ThisDestroy, CallDestroy ?w])"
    if nd: "\<not> destroyed ?s"
  proof -
    from nd life have bw: "browserWindow ?s = Some ?w" by (auto simp: cleared_def)
    from destroy_effect [OF nd] sd(1) bw show ?thesis by auto
  qed
  have after: "destroyed (run es' ?s') \<and> cleared (run es' ?s') \<and>
      isDestroyed_win ?w (run es' ?s') \<and> show_calls (run es' ?s') = [] \<and>
      \<not> shown ?w (run es' ?s')"
    for es'
  proof -
    have "quiet ?s' (run es' ?s')"
      by (rule run_finished) simp
    moreover have ev: "evolves ?s' (run es' ?s')"
      by (rule evolves_run)
    moreover have "cleared (run es' ?s')"
      using evolves_cleared [OF ev now(2)] .
    moreover have "isDestroyed_win ?w (run es' ?s')"
      using ev now(3) by (simp add: evolves_def)
    ultimately show ?thesis
      using q by (auto simp: quiet_def cleared_def)
  qed
  show ?thesis
    using st eq now c(1) cs after by blast
qed

theorem empty_popup_never_shown_witness:
  "\<exists>s'. step (HasChildNodesResult False) (run [LoadURLSettled] example_state) = Returned s' \<and>
     destroyed s' \<and> cleared s' \<and> isDestroyed_win 2 s' \<and> load_task s' = Finished \<and>
     browserWindow example_state = Some 2 \<and>
     calls s' = [CallLoadURL 2 ''popup.html'', CallExecuteJavaScript 2 HasChildNodes,
                 CallOff 1 ThisDestroy, CallOff 2 ThisDestroy, CallDestroy 2] \<and>
     (\<forall>es'. destroyed (run es' s') \<and> cleared (run es' s') \<and> isDestroyed_win 2 (run es' s') \<and>
            show_calls (run es' s') = [] \<and> \<not> shown 2 (run es' s'))"
proof -
  let ?s = "run [LoadURLSettled] example_state"
  have l: "load_task ?s = AwaitHasChildNodes (Some 2)"
    by (simp add: load_after_loadURL_def executeJavaScript_def host_call_live)
  have pre: "\<not> destroyed ?s" "parent ?s = Some 1" "\<not> isDestroyed_win 1 ?s"
    "\<not> isDestroyed_win 2 ?s" "\<not> isDevToolsOpened 2 ?s"
    "calls ?s = [CallLoadURL 2 ''popup.html'', CallExecuteJavaScript 2 HasChildNodes]"
    by (simp_all add: eval_defs)
  have f: "fresh_handle [(1, example_parent)] = 2"
    by (simp add: fresh_handle_def)
  obtain s' where s': "step (HasChildNodesResult False) ?s = Returned s'"
      "destroyed s'" "cleared s'" "isDestroyed_win 2 s'" "load_task s' = Finished"
      "browserWindow example_state = Some 2"
      "\<not> destroyed ?s \<longrightarrow>
        browserWindow ?s = Some 2 \<and>
        calls s' = calls ?s @
          (case parent ?s of None \<Rightarrow> []
           | Some p \<Rightarrow> if isDestroyed_win p ?s then [] else [CallOff p ThisDestroy]) @
          (if isDestroyed_win 2 ?s then []
           else (if isDevToolsOpened 2 ?s then [CallCloseDevTools 2] else [])
                @ [CallOff 2 ThisDestroy, CallDestroy 2])"
      "\<And>es'. destroyed (run es' s') \<and> cleared (run es' s') \<and>
            isDestroyed_win 2 (run es' s') \<and> show_calls (run es' s') = [] \<and>
            \<not> shown 2 (run es' s')"
    using empty_popup_never_shown [OF example_constructed l] unfolding f by blast
  have "calls s' = [CallLoadURL 2 ''popup.html'', CallExecuteJavaScript 2 HasChildNodes,
                 CallOff 1 ThisDestroy, CallOff 2 ThisDestroy, CallDestroy 2]"
    using s'(7) pre by simp
  with s' show ?thesis by blast
qed

text \<open>
  C2 fails on the code. \<open>queryPreferredSize\<close> checks \<open>usingPreferredSize\<close> only
  before it awaits the measurement script; when it resumes it checks \<open>destroyed\<close>
  alone. In the example the popup waits for the measurement, a notification sizes it
  to 300 by 200 and sets the latch, then the measurement of 100 by 100 arrives and
  overwrites that size although the latch is set.
\<close>

theorem stale_measurement_overwrites:
  "load_task (run [LoadURLSettled, HasChildNodesResult True, DelayElapsed] example_state)
     = AwaitMeasurement (Some 2) \<and>
   usingPreferredSize
     (run [LoadURLSettled, HasChildNodesResult True, DelayElapsed,
           PreferredSizeChanged \<lparr>opt_x = None, opt_y = None, opt_width = Some 300, opt_height = Some 200\<rparr>]
        example_state) \<and>
   bounds_of 2
     (run [LoadURLSettled, HasChildNodesResult True, DelayElapsed,
           PreferredSizeChanged \<lparr>opt_x = None, opt_y = None, opt_width = Some 300, opt_height = Some 200\<rparr>]
        example_state)
     = Some \<lparr>rect_x = 110, rect_y = 70, rect_width = 300, rect_height = 200\<rparr> \<and>
   usingPreferredSize
     (run [LoadURLSettled, HasChildNodesResult True, DelayElapsed,
           PreferredSizeChanged \<lparr>opt_x = None, opt_y = None, opt_width = Some 300, opt_height = Some 200\<rparr>,
           MeasurementResult \<lparr>opt_x = None, opt_y = None, opt_width = Some 100, opt_height = Some 100\<rparr>]
        example_state) \<and>
   bounds_of 2
     (run [LoadURLSettled, HasChildNodesResult True, DelayElapsed,
           PreferredSizeChanged \<lparr>opt_x = None, opt_y = None, opt_width = Some 300, opt_height = Some 200\<rparr>,
           MeasurementResult \<lparr>opt_x = None, opt_y = None, opt_width = Some 100, opt_height = Some 100\<rparr>]
        example_state)
     = Some \<lparr>rect_x = 110, rect_y = 70, rect_width = 100, rect_height = 100\<rparr>"
  by (simp add: eval_defs)

text \<open>
  C4 fails on the code. In Variant B, \<open>domReady\<close> does not look at \<open>destroyed\<close> after
  the settle delay: when the popup was destroyed during the delay (here by a blur),
  \<open>queryPreferredSize\<close> returns at once and \<open>win.show()\<close> is called on the destroyed
  window, which throws. In Variant A, \<open>load\<close> checks \<open>destroyed\<close> after \<open>loadURL\<close>,
  after the delay and after the measurement, but not after the content check: with
  the latch set, a popup destroyed during that check gets \<open>win.show()\<close> called too.
\<close>

theorem show_called_after_destroy:
  "domReady example_state
     = Returned (AwaitDelay (Some 2), state_of (setSize minimum_size example_state)) \<and>
   destroyed (state_of (step Blur (state_of (setSize minimum_size example_state)))) \<and>
   threw (domReady_after_delay (Some 2)
            (state_of (step Blur (state_of (setSize minimum_size example_state))))) \<and>
   calls (state_of (suspend (domReady_after_delay (Some 2)
            (state_of (step Blur (state_of (setSize minimum_size example_state)))))))
     = calls (state_of (step Blur (state_of (setSize minimum_size example_state)))) @ [CallShow 2] \<and>
   load_task (run [LoadURLSettled,
                   PreferredSizeChanged \<lparr>opt_x = None, opt_y = None, opt_width = Some 300, opt_height = Some 200\<rparr>,
                   Blur] example_state) = AwaitHasChildNodes (Some 2) \<and>
   destroyed (run [LoadURLSettled,
                   PreferredSizeChanged \<lparr>opt_x = None, opt_y = None, opt_width = Some 300, opt_height = Some 200\<rparr>,
                   Blur] example_state) \<and>
   step (HasChildNodesResult True)
        (run [LoadURLSettled,
              PreferredSizeChanged \<lparr>opt_x = None, opt_y = None, opt_width = Some 300, opt_height = Some 200\<rparr>,
              Blur] example_state)
     = Threw ObjectDestroyed
         ((run [LoadURLSettled,
                PreferredSizeChanged \<lparr>opt_x = None, opt_y = None, opt_width = Some 300, opt_height = Some 200\<rparr>,
                Blur] example_state)
            \<lparr>load_task := Finished,
              calls := calls (run [LoadURLSettled,
                PreferredSizeChanged \<lparr>opt_x = None, opt_y = None, opt_width = Some 300, opt_height = Some 200\<rparr>,
                Blur] example_state) @ [CallShow 2]\<rparr>)"
  by (simp add: eval_defs)

text \<open>
  C3. Calling \<open>destroy()\<close> several times is calling it once: \<open>n > 0\<close> calls end in
  the state of the first, which is destroyed, and a call on a destroyed popup returns
  the state as it is. The first call on a popup that is not destroyed clears both
  references and makes exactly these calls on the host: \<open>off\<close> once on the parent, if
  there is one and it is alive; then, if the popup has its window and it is alive,
  \<open>closeDevTools\<close> when the devtools are open, \<open>off\<close> once and \<open>destroy\<close> once on the
  window. The windows destroyed afterwards are those that were, and the popup's
  window. A window loses one \<open>destroy\<close> listener for each \<open>off\<close> called on it, and
  keeps its listeners otherwise.
\<close>

theorem destroy_idempotent:
  assumes "0 < n"
  shows "\<exists>s1. destroy s = Returned s1 \<and> destroy_times n s = Returned s1 \<and>
     destroy s1 = Returned s1 \<and> destroyed s1 \<and>
     (destroyed s \<longrightarrow> s1 = s) \<and>
     (\<not> destroyed s \<longrightarrow>
        parent s1 = None \<and> browserWindow s1 = None \<and>
        calls s1 = calls s @
          (case parent s of None \<Rightarrow> []
           | Some p \<Rightarrow> if isDestroyed_win p s then [] else [CallOff p ThisDestroy]) @
          (case browserWindow s of None \<Rightarrow> []
           | Some w \<Rightarrow>
               if isDestroyed_win w s then []
               else (if isDevToolsOpened w s then [CallCloseDevTools w] else [])
                    @ [CallOff w ThisDestroy, CallDestroy w]) \<and>
        (\<forall>w. isDestroyed_win w s1 = (isDestroyed_win w s \<or> browserWindow s = Some w)) \<and>
        (\<forall>w. listeners_of w s1 =
           (if browserWindow s = Some w \<and> \<not> isDestroyed_win w s
            then remove_listener ThisDestroy else (\<lambda>ls. ls))
             ((if parent s = Some w \<and> \<not> isDestroyed_win w s
               then remove_listener ThisDestroy else (\<lambda>ls. ls)) (listeners_of w s))))"
proof (cases "destroyed s")
  case True
  then have "destroy s = Returned s" "destroy_times n s = Returned s"
    by (simp_all add: destroy_again destroy_times_again)
  with True show ?thesis by simp
next
  case False
  obtain s1 where s1: "destroy s = Returned s1"
    "calls s1 = calls s @
          (case parent s of None \<Rightarrow> []
           | Some p \<Rightarrow> if isDestroyed_win p s then [] else [CallOff p ThisDestroy]) @
          (case browserWindow s of None \<Rightarrow> []
           | Some w \<Rightarrow>
               if isDestroyed_win w s then []
               else (if isDevToolsOpened w s then [CallCloseDevTools w] else [])
                    @ [CallOff w ThisDestroy, CallDestroy w])"
    "\<forall>w. isDestroyed_win w s1 = (isDestroyed_win w s \<or> browserWindow s = Some w)"
    "\<forall>w. listeners_of w s1 =
           (if browserWindow s = Some w \<and> \<not> isDestroyed_win w s
            then remove_listener ThisDestroy else (\<lambda>ls. ls))
             ((if parent s = Some w \<and> \<not> isDestroyed_win w s
               then remove_listener ThisDestroy else (\<lambda>ls. ls)) (listeners_of w s))"
    using destroy_effect [OF False] by blast
  obtain s' where s': "destroy s = Returned s'"
    "same_popup (s\<lparr>destroyed := True, parent := None, browserWindow := None\<rparr>) s'"
    using destroy_returns [of s] False by auto
  with s1(1) have f: "destroyed s1" "parent s1 = None" "browserWindow s1 = None"
    by (simp_all add: same_popup_def)
  have t: "destroy_times n s = Returned s1"
    using destroy_times_eq [OF assms, of s] s1(1) by simp
  have a: "destroy s1 = Returned s1"
    using f(1) by (rule destroy_again)
  show ?thesis
    using False s1 f t a by blast
qed

theorem destroy_idempotent_witness:
  "(\<exists>s1. destroy example_state = Returned s1 \<and> destroy_times 3 example_state = Returned s1 \<and>
     destroy s1 = Returned s1 \<and>
     destroyed s1 \<and> parent s1 = None \<and> browserWindow s1 = None \<and>
     calls s1 = [CallLoadURL 2 ''popup.html'', CallOff 1 ThisDestroy, CallOff 2 ThisDestroy, CallDestroy 2] \<and>
     listeners_of 1 s1 = [] \<and> listeners_of 2 s1 = [] \<and>
     isDestroyed_win 2 s1 \<and> \<not> isDestroyed_win 1 s1) \<and>
   isDestroyed_win 1 (host_destroy_window 1 example_state) \<and>
   (\<exists>s1. destroy (host_destroy_window 1 example_state) = Returned s1 \<and>
     destroy_times 2 (host_destroy_window 1 example_state) = Returned s1 \<and>
     destroyed s1 \<and> parent s1 = None \<and> browserWindow s1 = None \<and>
     calls s1 = [CallLoadURL 2 ''popup.html'', CallOff 2 ThisDestroy, CallDestroy 2] \<and>
     listeners_of 1 s1 = [ThisDestroy] \<and> listeners_of 2 s1 = [] \<and>
     isDestroyed_win 2 s1) \<and>
   destroy (state_of (destroy example_state)) = Returned (state_of (destroy example_state))"
proof -
  obtain s1 where s1: "destroy example_state = Returned s1"
      "destroy_times 3 example_state = Returned s1" "destroy s1 = Returned s1"
      "destroyed s1" "parent s1 = None" "browserWindow s1 = None"
      "calls s1 = [CallLoadURL 2 ''popup.html'', CallOff 1 ThisDestroy, CallOff 2 ThisDestroy, CallDestroy 2]"
      "\<And>w. isDestroyed_win w s1 = (isDestroyed_win w example_state \<or> browserWindow example_state = Some w)"
      "\<And>w. listeners_of w s1 =
           (if browserWindow example_state = Some w \<and> \<not> isDestroyed_win w example_state
            then remove_listener ThisDestroy else (\<lambda>ls. ls))
             ((if parent example_state = Some w \<and> \<not> isDestroyed_win w example_state
               then remove_listener ThisDestroy else (\<lambda>ls. ls)) (listeners_of w example_state))"
    using destroy_idempotent [where n = 3 and s = example_state] by auto
  have 1: "\<exists>s1. destroy example_state = Returned s1 \<and> destroy_times 3 example_state = Returned s1 \<and>
     destroy s1 = Returned s1 \<and>
     destroyed s1 \<and> parent s1 = None \<and> browserWindow s1 = None \<and>
     calls s1 = [CallLoadURL 2 ''popup.html'', CallOff 1 ThisDestroy, CallOff 2 ThisDestroy, CallDestroy 2] \<and>
     listeners_of 1 s1 = [] \<and> listeners_of 2 s1 = [] \<and>
     isDestroyed_win 2 s1 \<and> \<not> isDestroyed_win 1 s1"
    using s1(1-7) s1(8) [of 1] s1(8) [of 2] s1(9) [of 1] s1(9) [of 2]
    by (simp add: remove_listener_def)
  let ?p = "host_destroy_window 1 example_state"
  have pre: "\<not> destroyed ?p" "browserWindow ?p = Some 2" "parent ?p = Some 1"
    "isDestroyed_win 1 ?p" "\<not> isDestroyed_win 2 ?p" "\<not> isDevToolsOpened 2 ?p"
    "calls ?p = [CallLoadURL 2 ''popup.html'']"
    "listeners_of 1 ?p = [ThisDestroy]" "listeners_of 2 ?p = [ThisDestroy]"
    by simp_all
  obtain s2 where s2: "destroy ?p = Returned s2"
      "destroy_times 2 ?p = Returned s2"
      "destroyed s2" "parent s2 = None" "browserWindow s2 = None"
      "calls s2 = [CallLoadURL 2 ''popup.html'', CallOff 2 ThisDestroy, CallDestroy 2]"
      "\<And>w. isDestroyed_win w s2 = (isDestroyed_win w ?p \<or> browserWindow ?p = Some w)"
      "\<And>w. listeners_of w s2 =
           (if browserWindow ?p = Some w \<and> \<not> isDestroyed_win w ?p
            then remove_listener ThisDestroy else (\<lambda>ls. ls))
             ((if parent ?p = Some w \<and> \<not> isDestroyed_win w ?p
               then remove_listener ThisDestroy else (\<lambda>ls. ls)) (listeners_of w ?p))"
    using destroy_idempotent [where n = 2 and s = ?p] pre by auto
  have 2: "\<exists>s1. destroy ?p = Returned s1 \<and>
     destroy_times 2 ?p = Returned s1 \<and>
     destroyed s1 \<and> parent s1 = None \<and> browserWindow s1 = None \<and>
     calls s1 = [CallLoadURL 2 ''popup.html'', CallOff 2 ThisDestroy, CallDestroy 2] \<and>
     listeners_of 1 s1 = [ThisDestroy] \<and> listeners_of 2 s1 = [] \<and>
     isDestroyed_win 2 s1"
    using s2(1-6) s2(7) [of 2] s2(8) [of 1] s2(8) [of 2] pre
    by (simp add: remove_listener_def)
  have 3: "destroy (state_of (destroy example_state)) = Returned (state_of (destroy example_state))"
    using s1(1,3) by simp
  show ?thesis using 1 2 3 pre(4) by blast
qed

end
